theory Spec2Isabelle
  imports Complex_Main "HOL-Library.Word" "HOL-Library.Sublist"
begin

section \<open>util/util.h: pluralize\<close>

text \<open>
  \<^verbatim>\<open>inline std::string pluralize( const std::string & word, const size_t count ) {
      return word + (count == 1 ? "s" : "");
  }\<close>
  The count is a \<open>size_t\<close>; it is only compared with 1.
\<close>

definition pluralize :: "string \<Rightarrow> 64 word \<Rightarrow> string" where
  "pluralize word count = word @ (if count = 1 then ''s'' else '''')"

section \<open>The worker (lambda-worker.cpp)\<close>

text \<open>
  The worker is a single-threaded reactor: every handler runs to completion on the
  worker's fields. Each handler is modelled as a function from the worker's state to the
  new state; a handler that can throw returns \<open>None\<close> where the C++ leaves through an
  exception (or dereferences what is not there). Logging (\<open>logRayAction\<close>,
  \<open>logPacket\<close>), the statistics counters (\<open>workerStats\<close>), the timers' \<open>reset()\<close> and
  the pacing counters of the UDP connections do not feed back into the fields modelled
  here and are left out. Clock readings (\<open>packet_clock::now()\<close>) are arguments.

  Integers: sequence numbers, the ack id and the two queue counters are 64-bit and the
  attempt count is 16-bit, with the wrap-around of the C++ types; identifiers that are
  only compared (worker ids, treelet ids, addresses) and time points are natural numbers.
\<close>

type_synonym Address = nat
type_synonym WorkerId = nat
type_synonym TreeletId = nat
type_synonym time_point = nat
type_synonym byte = "8 word"
type_synonym SeqNo = "64 word"

definition UDP_MTU_BYTES :: nat where
  "UDP_MTU_BYTES = 1350"

definition MAX_RAYS :: nat where
  "MAX_RAYS = 20000"

subsection \<open>Rays\<close>

text \<open>
  \<open>RayState\<close> is declared in cloud/raystate.h, which is not among the sources. The record
  holds what lambda-worker.cpp reads and writes of a ray: the fields it touches
  (\<open>hit\<close>, \<open>isShadowRay\<close>, \<open>Ld\<close>, \<open>trackRay\<close>, \<open>hop\<close>, \<open>tick\<close>) and, as fields, the values of
  the accessors it calls: \<open>PathID()\<close>, \<open>toVisitEmpty()\<close>, \<open>CurrentTreelet()\<close>, and the string
  \<open>RayState::serialize\<close> returns for the ray.
\<close>

record RayState =
  PathID :: nat
  toVisitEmpty :: bool
  hit :: bool
  isShadowRay :: bool
  Ld :: real
  trackRay :: bool
  hop :: nat
  tick :: nat
  CurrentTreelet :: TreeletId
  serialize :: "byte list"

text \<open>
  The external collaborators the handlers call are arguments: the tracer
  (\<open>CloudIntegrator::Trace\<close> and \<open>CloudIntegrator::Shade\<close>), the camera and sampler behind
  generateRays (\<open>cameraRays bounds\<close>: the ray states they produce for the crop window, one
  per sample and pixel inside the sample bounds, in loop order), and the reader of a
  \<open>SendRays\<close> payload (\<open>decodeRays\<close>: \<open>protobuf::RecordReader\<close> with \<open>RayState::deserialize\<close>).
\<close>

type_synonym Bounds2i = "int \<times> int \<times> int \<times> int"

record Tracer =
  Trace :: "RayState \<Rightarrow> RayState"
  Shade :: "RayState \<Rightarrow> RayState list \<times> bool"
  cameraRays :: "Bounds2i \<Rightarrow> RayState list"
  decodeRays :: "byte list \<Rightarrow> RayState list"

subsection \<open>Messages and packets\<close>

datatype OpCode =
  Hey | Ping | GetObjects | GenerateRays | ConnectTo | MultipleConnect
  | ConnectionRequest | ConnectionResponse | SendRays | Ack | FinishedPaths
  | FinishedRays | WorkerStats | GetWorker | StartBenchmark | Bye

text \<open>The protobuf records lambda-worker.cpp reads fields of.\<close>

record ConnectTo_proto =
  ct_worker_id :: WorkerId
  ct_address :: "Address list"

record ConnectRequest_proto =
  rq_worker_id :: WorkerId
  rq_my_seed :: nat
  rq_your_seed :: nat
  rq_address_no :: nat

record ConnectResponse_proto =
  rs_worker_id :: WorkerId
  rs_my_seed :: nat
  rs_your_seed :: nat
  rs_address_no :: nat
  rs_treelet_ids :: "TreeletId list"

text \<open>
  A payload is a string. Where the worker builds it byte by byte (the records of a
  \<open>SendRays\<close> packet, the triples of an \<open>Ack\<close>) it is kept as bytes; where it is the
  protobuf encoding of a record (\<open>protoutil::to_string\<close>, \<open>protoutil::from_string\<close>: the
  protobuf library), it is kept as the record it encodes.
\<close>

datatype Payload =
  Bytes "byte list"
  | Hey_payload WorkerId string
  | GetObjects_payload "TreeletId list"
  | GenerateRays_payload Bounds2i
  | ConnectTo_payload ConnectTo_proto
  | MultipleConnect_payload "ConnectTo_proto list"
  | ConnectRequest_payload ConnectRequest_proto
  | ConnectResponse_payload ConnectResponse_proto

text \<open>
  \<open>meow::Message\<close> (execution/meow/message.h, not among the sources), by the accessors
  the worker calls. The string \<open>Message::str\<close> produces for the wire is kept as the message
  it encodes.
\<close>

record Message =
  sender_id :: WorkerId
  opcode :: OpCode
  payload :: Payload
  reliable :: bool
  sequence_number :: SeqNo
  tracked :: bool
  attempt :: "16 word"
  is_read :: bool

record RayPacket =
  destination :: Address
  destinationId :: WorkerId
  targetTreelet :: TreeletId
  rayCount :: nat
  data :: Message
  packet_reliable :: bool
  sequenceNumber :: SeqNo
  packet_tracked :: bool
  packet_attempt :: "16 word"
  retransmission :: bool
  trackedRays :: "RayState list"

record ServicePacket =
  service_destination :: Address
  service_destinationId :: WorkerId
  service_data :: Message
  iface :: nat
  ackPacket :: bool
  service_ackId :: SeqNo
  service_tracked :: bool

subsection \<open>Peers\<close>

datatype State = Connecting | Connected

record Worker =
  peer_id :: WorkerId
  address :: "Address \<times> Address"
  connected :: "bool \<times> bool"
  state :: State
  seed :: nat
  tries :: nat
  treelets :: "TreeletId set"
  nextKeepAlive :: time_point

subsection \<open>The worker's fields\<close>

text \<open>
  \<open>peers\<close>, \<open>outQueue\<close>, \<open>toBeAcked\<close> and \<open>receivedAcks\<close> are the maps the worker iterates
  over or tests for emptiness; each is the list of its entries in the order of the keys,
  the order in which \<open>std::map\<close> is iterated. The other maps are only looked up and
  updated. \<open>udpSent\<close> is the log of the \<open>sendto\<close> calls: interface, destination, datagram.
  \<open>randEngine\<close> is the stream of values the random engine will produce and \<open>randPos\<close> the
  number of values drawn so far.
\<close>

record LambdaWorker =
  workerId :: "WorkerId option"
  mySeed :: nat
  coordinatorAddr :: Address
  sendReliably :: bool
  peers :: "(WorkerId \<times> Worker) list"
  addressToWorker :: "Address \<rightharpoonup> WorkerId"
  treeletIds :: "TreeletId set"
  treeletToWorker :: "TreeletId \<rightharpoonup> WorkerId list"
  neededTreelets :: "TreeletId set"
  requestedTreelets :: "TreeletId set"
  rayQueue :: "RayState list"
  outQueue :: "(TreeletId \<times> RayState list) list"
  pendingQueue :: "TreeletId \<rightharpoonup> RayState list"
  finishedQueue :: "RayState list"
  finishedPathIds :: "nat list"
  outQueueSize :: "64 word"
  pendingQueueSize :: "64 word"
  sequenceNumbers :: "Address \<rightharpoonup> SeqNo"
  rayPackets :: "RayPacket list"
  servicePackets :: "ServicePacket list"
  outstandingRayPackets :: "(time_point \<times> RayPacket) list"
  receivedAcks :: "(Address \<times> SeqNo set) list"
  toBeAcked :: "(Address \<times> (SeqNo \<times> bool \<times> 16 word) list) list"
  receivedPacketSeqNos :: "Address \<rightharpoonup> SeqNo set"
  ackId :: SeqNo
  messageParser :: "Message list"
  udpSent :: "(nat \<times> Address \<times> Message) list"
  randEngine :: "nat \<Rightarrow> nat"
  randPos :: nat
  terminated :: bool

text \<open>
  \<open>m[k] = v\<close> on a map that is iterated: the entry of the key is replaced, and a new key
  is inserted at its place in the order of the keys.
\<close>

fun map_put :: "'k::linorder \<Rightarrow> 'v \<Rightarrow> ('k \<times> 'v) list \<Rightarrow> ('k \<times> 'v) list" where
  "map_put k v [] = [(k, v)]"
| "map_put k v ((k', v') # m) =
     (if k = k' then (k, v) # m
      else if k < k' then (k, v) # (k', v') # m
      else (k', v') # map_put k v m)"

text \<open>\<open>m[k]\<close> on a map of deques, read only: the deque, empty when the key is absent.\<close>

definition deque_at :: "('k \<rightharpoonup> 'v list) \<Rightarrow> 'k \<Rightarrow> 'v list" where
  "deque_at m k = (case m k of None \<Rightarrow> [] | Some q \<Rightarrow> q)"

text \<open>The same for a map of sets (\<open>SeqNoSet\<close>: \<open>contains\<close> and \<open>insert\<close>).\<close>

definition set_at :: "('k \<rightharpoonup> 'v set) \<Rightarrow> 'k \<Rightarrow> 'v set" where
  "set_at m k = (case m k of None \<Rightarrow> {} | Some q \<Rightarrow> q)"

text \<open>The same for a map of counters (\<open>sequenceNumbers\<close>): 0 when the key is absent.\<close>

definition counter_at :: "('k \<rightharpoonup> SeqNo) \<Rightarrow> 'k \<Rightarrow> SeqNo" where
  "counter_at m k = (case m k of None \<Rightarrow> 0 | Some n \<Rightarrow> n)"

subsection \<open>Classification of a ray (handleRayQueue lines 519-541, generateRays lines 1092-1107)\<close>

definition pushRayQueue :: "RayState \<Rightarrow> LambdaWorker \<Rightarrow> LambdaWorker" where
  "pushRayQueue ray s = s\<lparr>rayQueue := rayQueue s @ [ray]\<rparr>"

text \<open>The body of the \<open>while (!processedRays.empty())\<close> loop of handleRayQueue.\<close>

definition classifyProcessed :: "RayState \<Rightarrow> LambdaWorker \<Rightarrow> LambdaWorker" where
  "classifyProcessed ray s =
     (let nextTreelet = CurrentTreelet ray in
      if nextTreelet \<in> treeletIds s then pushRayQueue ray s
      else if treeletToWorker s nextTreelet \<noteq> None then
        s\<lparr>outQueue := map_put nextTreelet
             (deque_at (map_of (outQueue s)) nextTreelet @ [ray]) (outQueue s),
          outQueueSize := outQueueSize s + 1\<rparr>
      else
        s\<lparr>neededTreelets := insert nextTreelet (neededTreelets s),
          pendingQueue := (pendingQueue s)(nextTreelet \<mapsto>
             deque_at (pendingQueue s) nextTreelet @ [ray]),
          pendingQueueSize := pendingQueueSize s + 1\<rparr>)"

fun drainProcessed :: "RayState list \<Rightarrow> LambdaWorker \<Rightarrow> LambdaWorker" where
  "drainProcessed [] s = s"
| "drainProcessed (ray # processedRays) s = drainProcessed processedRays (classifyProcessed ray s)"

text \<open>
  The first loop of handleRayQueue, over the rays popped in this activation:
  \<open>processedRays\<close> is the local deque, \<open>None\<close> the \<open>runtime_error("invalid ray in ray queue")\<close>.
\<close>

definition recordFinishedPath :: "nat \<Rightarrow> LambdaWorker \<Rightarrow> LambdaWorker" where
  "recordFinishedPath pathId s = s\<lparr>finishedPathIds := finishedPathIds s @ [pathId]\<rparr>"

fun traceRays ::
  "Tracer \<Rightarrow> RayState list \<Rightarrow> RayState list \<Rightarrow> LambdaWorker \<Rightarrow> (RayState list \<times> LambdaWorker) option"
where
  "traceRays tr [] processedRays s = Some (processedRays, s)"
| "traceRays tr (ray # rays) processedRays s =
     (let pathId = PathID ray in
      if \<not> toVisitEmpty ray then
        (let newRay = Trace tr ray; hit' = hit newRay; emptyVisit = toVisitEmpty newRay in
         if isShadowRay newRay then
           (if hit' \<or> emptyVisit then
              traceRays tr rays processedRays
                (s\<lparr>finishedQueue := finishedQueue s @ [newRay\<lparr>Ld := (if hit' then 0 else Ld newRay)\<rparr>]\<rparr>)
            else traceRays tr rays (processedRays @ [newRay]) s)
         else if \<not> emptyVisit \<or> hit' then traceRays tr rays (processedRays @ [newRay]) s
         else
           traceRays tr rays processedRays
             (recordFinishedPath pathId (s\<lparr>finishedQueue := finishedQueue s @ [newRay\<lparr>Ld := 0\<rparr>]\<rparr>)))
      else if hit ray then
        (let newRays = Shade tr ray;
             s' = (if snd newRays then recordFinishedPath pathId s else s)
         in traceRays tr rays (processedRays @ fst newRays) s')
      else None)"

definition handleRayQueue :: "Tracer \<Rightarrow> LambdaWorker \<Rightarrow> LambdaWorker option" where
  "handleRayQueue tr s =
     (case traceRays tr (take MAX_RAYS (rayQueue s)) []
             (s\<lparr>rayQueue := drop MAX_RAYS (rayQueue s)\<rparr>) of
        None \<Rightarrow> None
      | Some (processedRays, s') \<Rightarrow> Some (drainProcessed processedRays s'))"

text \<open>
  generateRays: the camera and the sampler (external) produce one ray state per sample
  and pixel inside the sample bounds; \<open>states\<close> is that sequence in loop order. What the
  worker does with each state is the classification of lines 1092-1107.
\<close>

definition classifyGenerated :: "RayState \<Rightarrow> LambdaWorker \<Rightarrow> LambdaWorker" where
  "classifyGenerated statePtr s =
     (let nextTreelet = CurrentTreelet statePtr in
      if nextTreelet \<in> treeletIds s then pushRayQueue statePtr s
      else if treeletToWorker s nextTreelet \<noteq> None then
        s\<lparr>outQueue := map_put nextTreelet
             (deque_at (map_of (outQueue s)) nextTreelet @ [statePtr]) (outQueue s),
          outQueueSize := outQueueSize s + 1\<rparr>
      else
        s\<lparr>neededTreelets := insert nextTreelet (neededTreelets s),
          pendingQueue := (pendingQueue s)(nextTreelet \<mapsto>
             deque_at (pendingQueue s) nextTreelet @ [statePtr]),
          pendingQueueSize := pendingQueueSize s + 1\<rparr>)"

fun generateRays :: "RayState list \<Rightarrow> LambdaWorker \<Rightarrow> LambdaWorker" where
  "generateRays [] s = s"
| "generateRays (statePtr # states) s = generateRays states (classifyGenerated statePtr s)"

subsection \<open>Constructors and small helpers\<close>

text \<open>
  Modelled from the spec: the constants \<open>PACKET_TIMEOUT\<close> and \<open>KEEP_ALIVE_INTERVAL\<close> are
  declared in lambda-worker.h, which is not among the sources; the specification gives
  one second for each. Time points count milliseconds.
\<close>

definition PACKET_TIMEOUT :: nat where
  "PACKET_TIMEOUT = 1000"

definition KEEP_ALIVE_INTERVAL :: nat where
  "KEEP_ALIVE_INTERVAL = 1000"

text \<open>
  Modelled from the spec: the constructors of \<open>Message\<close>, \<open>ServicePacket\<close>, \<open>RayPacket\<close> and
  \<open>Worker\<close> are in headers that are not among the sources. A message starts unread with
  attempt 0; a service packet is for interface 0 and is no ack unless said otherwise; a
  ray packet starts with attempt 0 and is no retransmission; a peer starts in
  \<open>Connecting\<close> with neither interface connected.
\<close>

definition Message_ctor :: "WorkerId \<Rightarrow> OpCode \<Rightarrow> Payload \<Rightarrow> bool \<Rightarrow> SeqNo \<Rightarrow> bool \<Rightarrow> Message" where
  "Message_ctor sender op pl rel seqNo trk =
     \<lparr>sender_id = sender, opcode = op, payload = pl, reliable = rel,
      sequence_number = seqNo, tracked = trk, attempt = 0, is_read = False\<rparr>"

definition ServicePacket_ctor ::
  "Address \<Rightarrow> WorkerId \<Rightarrow> Message \<Rightarrow> bool \<Rightarrow> SeqNo \<Rightarrow> bool \<Rightarrow> ServicePacket" where
  "ServicePacket_ctor addr destId msg isAck aId trk =
     \<lparr>service_destination = addr, service_destinationId = destId, service_data = msg,
      iface = 0, ackPacket = isAck, service_ackId = aId, service_tracked = trk\<rparr>"

definition Worker_ctor :: "WorkerId \<Rightarrow> Worker" where
  "Worker_ctor wid =
     \<lparr>peer_id = wid, address = (0, 0), connected = (False, False), state = Connecting,
      seed = 0, tries = 0, treelets = {}, nextKeepAlive = 0\<rparr>"

text \<open>
  Modelled from the spec: \<open>RayPacket::incrementAttempts\<close> (lambda-worker.h) increments the
  packet's attempt count.
\<close>

definition incrementAttempts :: "RayPacket \<Rightarrow> RayPacket" where
  "incrementAttempts packet = packet\<lparr>packet_attempt := packet_attempt packet + 1\<rparr>"

text \<open>
  A C array of two elements, indexed by a number read from the network: an index of 2
  or more is outside the array (undefined behaviour in C++), \<open>None\<close> here.
\<close>

definition at2 :: "'a \<times> 'a \<Rightarrow> nat \<Rightarrow> 'a option" where
  "at2 a i = (if i = 0 then Some (fst a) else if i = 1 then Some (snd a) else None)"

definition set2 :: "'a \<times> 'a \<Rightarrow> nat \<Rightarrow> 'a \<Rightarrow> ('a \<times> 'a) option" where
  "set2 a i v = (if i = 0 then Some (v, snd a) else if i = 1 then Some (fst a, v) else None)"

text \<open>\<open>std::map::emplace\<close>: inserts only when the key is absent.\<close>

definition emplace :: "('k \<rightharpoonup> 'v) \<Rightarrow> 'k \<Rightarrow> 'v \<Rightarrow> ('k \<rightharpoonup> 'v)" where
  "emplace m k v = (if m k = None then m(k \<mapsto> v) else m)"

text \<open>
  Modelled from the spec: \<open>put_field\<close> (net/util.h) and the readers of \<open>Chunk\<close> (\<open>be64\<close>,
  \<open>octet\<close>, \<open>be16\<close>, \<open>be32\<close>) write and read big-endian integers: an ack is the triple
  \<open>{uint64 seqNo; uint8 tracked; uint16 attempt}\<close>, eleven bytes.
\<close>

fun be_bytes :: "nat \<Rightarrow> nat \<Rightarrow> byte list" where
  "be_bytes 0 v = []"
| "be_bytes (Suc n) v = of_nat (v div 256 ^ n) # be_bytes n v"

definition be_value :: "byte list \<Rightarrow> nat" where
  "be_value bs = foldl (\<lambda>a b. a * 256 + unat b) 0 bs"

definition put_ack :: "SeqNo \<times> bool \<times> 16 word \<Rightarrow> byte list" where
  "put_ack a =
     (case a of (seqNo, trk, att) \<Rightarrow>
        be_bytes 8 (unat seqNo) @ be_bytes 1 (if trk then 1 else 0) @ be_bytes 2 (unat att))"

subsection \<open>Control-plane messages (processMessage)\<close>

definition createConnectionRequest :: "WorkerId \<Rightarrow> nat \<Rightarrow> Worker \<Rightarrow> nat \<Rightarrow> Message" where
  "createConnectionRequest wid sd peer addressNo =
     Message_ctor wid ConnectionRequest
       (ConnectRequest_payload \<lparr>rq_worker_id = wid, rq_my_seed = sd,
          rq_your_seed = seed peer, rq_address_no = addressNo\<rparr>) False 0 False"

definition createConnectionResponse ::
  "WorkerId \<Rightarrow> nat \<Rightarrow> TreeletId set \<Rightarrow> Worker \<Rightarrow> nat \<Rightarrow> Message" where
  "createConnectionResponse wid sd ids peer addressNo =
     Message_ctor wid ConnectionResponse
       (ConnectResponse_payload \<lparr>rs_worker_id = wid, rs_my_seed = sd,
          rs_your_seed = seed peer, rs_address_no = addressNo,
          rs_treelet_ids = sorted_list_of_set ids\<rparr>) False 0 False"

text \<open>The lambda \<open>handleConnectTo\<close>; \<open>None\<close> where \<open>*workerId\<close> is read before it is set.\<close>

definition handleConnectTo :: "ConnectTo_proto \<Rightarrow> LambdaWorker \<Rightarrow> LambdaWorker option" where
  "handleConnectTo proto s =
     (if map_of (peers s) (ct_worker_id proto) = None then
        (case workerId s of
           None \<Rightarrow> None
         | Some wid \<Rightarrow>
             if ct_worker_id proto \<noteq> wid then
               (let peer = Worker_ctor (ct_worker_id proto) in
                case ct_address proto of
                  [] \<Rightarrow> Some (s\<lparr>peers := map_put (ct_worker_id proto) peer (peers s)\<rparr>)
                | [a0] \<Rightarrow>
                    Some (s\<lparr>peers := map_put (ct_worker_id proto)
                               (peer\<lparr>address := (a0, snd (address peer))\<rparr>) (peers s),
                            addressToWorker :=
                               emplace (addressToWorker s) a0 (ct_worker_id proto)\<rparr>)
                | a0 # a1 # _ \<Rightarrow>
                    Some (s\<lparr>peers := map_put (ct_worker_id proto)
                               (peer\<lparr>address := (a0, a1)\<rparr>) (peers s),
                            addressToWorker :=
                               emplace (emplace (addressToWorker s) a0 (ct_worker_id proto))
                                 a1 (ct_worker_id proto)\<rparr>))
             else Some s)
      else Some s)"

fun handleConnectToAll :: "ConnectTo_proto list \<Rightarrow> LambdaWorker \<Rightarrow> LambdaWorker option" where
  "handleConnectToAll [] s = Some s"
| "handleConnectToAll (proto # protos) s =
     (case handleConnectTo proto s of None \<Rightarrow> None | Some s' \<Rightarrow> handleConnectToAll protos s')"

definition processHey :: "WorkerId \<Rightarrow> LambdaWorker \<Rightarrow> LambdaWorker" where
  "processHey wid s =
     (let peer0 = (case map_of (peers s) 0 of None \<Rightarrow> Worker_ctor 0 | Some p \<Rightarrow> p);
          peer = peer0\<lparr>address := (coordinatorAddr s, coordinatorAddr s)\<rparr>;
          request = (\<lambda>i. (ServicePacket_ctor (coordinatorAddr s) 0
                            (createConnectionRequest wid (mySeed s) peer i) False 0 False)
                          \<lparr>iface := i\<rparr>)
      in s\<lparr>workerId := Some wid,
           peers := map_put 0 peer (peers s),
           servicePackets := request 1 # request 0 # servicePackets s\<rparr>)"

definition processConnectionRequest ::
  "ConnectRequest_proto \<Rightarrow> LambdaWorker \<Rightarrow> (bool \<times> LambdaWorker) option" where
  "processConnectionRequest proto s =
     (let otherWorkerId = rq_worker_id proto in
      case map_of (peers s) otherWorkerId of
        None \<Rightarrow> Some (False, s)
      | Some peer \<Rightarrow>
          (case workerId s of
             None \<Rightarrow> None
           | Some wid \<Rightarrow>
               (case at2 (address peer) (rq_address_no proto) of
                  None \<Rightarrow> None
                | Some addr \<Rightarrow>
                    Some (True,
                      s\<lparr>servicePackets :=
                          (ServicePacket_ctor addr otherWorkerId
                             (createConnectionResponse wid (mySeed s) (treeletIds s) peer
                                (rq_address_no proto)) False 0 False)
                          \<lparr>iface := rq_address_no proto\<rparr> # servicePackets s\<rparr>))))"

text \<open>
  The body of the loop over \<open>proto.treelet_ids()\<close> in the \<open>ConnectionResponse\<close> case, but for
  \<open>peer.treelets.insert(treeletId)\<close>, which \<open>processConnectionResponse\<close> does for the whole
  list at once.
\<close>

definition announceTreelet :: "WorkerId \<Rightarrow> TreeletId \<Rightarrow> LambdaWorker \<Rightarrow> LambdaWorker" where
  "announceTreelet otherWorkerId treeletId s =
     (let s1 = s\<lparr>treeletToWorker := (treeletToWorker s)(treeletId \<mapsto>
                     deque_at (treeletToWorker s) treeletId @ [otherWorkerId]),
                 neededTreelets := neededTreelets s - {treeletId},
                 requestedTreelets := requestedTreelets s - {treeletId}\<rparr>
      in case pendingQueue s1 treeletId of
           None \<Rightarrow> s1
         | Some treeletPending \<Rightarrow>
             s1\<lparr>outQueueSize := outQueueSize s1 + of_nat (length treeletPending),
                pendingQueueSize := pendingQueueSize s1 - of_nat (length treeletPending),
                outQueue := map_put treeletId
                   (deque_at (map_of (outQueue s1)) treeletId @ treeletPending) (outQueue s1),
                pendingQueue := (pendingQueue s1)(treeletId \<mapsto> [])\<rparr>)"

fun announceTreelets :: "WorkerId \<Rightarrow> TreeletId list \<Rightarrow> LambdaWorker \<Rightarrow> LambdaWorker" where
  "announceTreelets otherWorkerId [] s = s"
| "announceTreelets otherWorkerId (treeletId # ids) s =
     announceTreelets otherWorkerId ids (announceTreelet otherWorkerId treeletId s)"

definition processConnectionResponse ::
  "time_point \<Rightarrow> ConnectResponse_proto \<Rightarrow> LambdaWorker \<Rightarrow> (bool \<times> LambdaWorker) option" where
  "processConnectionResponse now proto s =
     (let otherWorkerId = rs_worker_id proto in
      case map_of (peers s) otherWorkerId of
        None \<Rightarrow> Some (True, s)
      | Some peer0 \<Rightarrow>
          (let peer = peer0\<lparr>seed := rs_my_seed proto\<rparr> in
           if state peer \<noteq> Connected \<and> rs_your_seed proto = mySeed s then
             (case set2 (connected peer) (rs_address_no proto) True of
                None \<Rightarrow> None
              | Some flags \<Rightarrow>
                  (let peer1 = peer\<lparr>connected := flags,
                                    state := (if (if fst flags then 1 else 0) +
                                                 (if snd flags then 1 else (0::nat)) = 2
                                              then Connected else Connecting)\<rparr>
                   in if state peer1 \<noteq> Connected then
                        Some (True, s\<lparr>peers := map_put otherWorkerId peer1 (peers s)\<rparr>)
                      else
                        (let peer2 = peer1\<lparr>nextKeepAlive := now + KEEP_ALIVE_INTERVAL,
                                          treelets := treelets peer1 \<union> set (rs_treelet_ids proto)\<rparr>
                         in Some (True,
                              announceTreelets otherWorkerId (rs_treelet_ids proto)
                                (s\<lparr>peers := map_put otherWorkerId peer2 (peers s)\<rparr>)))))
           else Some (True, s\<lparr>peers := map_put otherWorkerId peer (peers s)\<rparr>)))"

text \<open>The \<open>SendRays\<close> case: each received ray gets \<open>hop++\<close> and \<open>tick = 0\<close> and joins the ray queue.\<close>

fun receiveRays :: "RayState list \<Rightarrow> LambdaWorker \<Rightarrow> LambdaWorker" where
  "receiveRays [] s = s"
| "receiveRays (ray # rays) s = receiveRays rays (pushRayQueue (ray\<lparr>hop := hop ray + 1, tick := 0\<rparr>) s)"

text \<open>
  The \<open>StartBenchmark\<close> case reads four 32-bit fields and calls initBenchmark, which
  replaces the reactor's actions and reads \<open>peers.at(destination)\<close>; it changes none of the
  fields modelled here. \<open>None\<close>: the payload is too short or the destination is unknown.
\<close>

definition processStartBenchmark :: "byte list \<Rightarrow> LambdaWorker \<Rightarrow> (bool \<times> LambdaWorker) option" where
  "processStartBenchmark c s =
     (if length c < 16 then None
      else if map_of (peers s) (be_value (take 4 c)) = None then None
      else Some (True, s))"

definition processMessage ::
  "Tracer \<Rightarrow> time_point \<Rightarrow> Message \<Rightarrow> LambdaWorker \<Rightarrow> (bool \<times> LambdaWorker) option" where
  "processMessage tr now message s =
     (case opcode message of
        Hey \<Rightarrow>
          (case payload message of
             Hey_payload wid jobId \<Rightarrow> Some (True, processHey wid s)
           | _ \<Rightarrow> None)
      | Ping \<Rightarrow> Some (True, s)
      | GetObjects \<Rightarrow>
          (case payload message of
             GetObjects_payload ids \<Rightarrow> Some (True, s\<lparr>treeletIds := treeletIds s \<union> set ids\<rparr>)
           | _ \<Rightarrow> None)
      | GenerateRays \<Rightarrow>
          (case payload message of
             GenerateRays_payload bounds \<Rightarrow> Some (True, generateRays (cameraRays tr bounds) s)
           | _ \<Rightarrow> None)
      | ConnectTo \<Rightarrow>
          (case payload message of
             ConnectTo_payload proto \<Rightarrow> map_option (Pair True) (handleConnectTo proto s)
           | _ \<Rightarrow> None)
      | MultipleConnect \<Rightarrow>
          (case payload message of
             MultipleConnect_payload protos \<Rightarrow> map_option (Pair True) (handleConnectToAll protos s)
           | _ \<Rightarrow> None)
      | ConnectionRequest \<Rightarrow>
          (case payload message of
             ConnectRequest_payload proto \<Rightarrow> processConnectionRequest proto s
           | _ \<Rightarrow> None)
      | ConnectionResponse \<Rightarrow>
          (case payload message of
             ConnectResponse_payload proto \<Rightarrow> processConnectionResponse now proto s
           | _ \<Rightarrow> None)
      | SendRays \<Rightarrow>
          (case payload message of
             Bytes bs \<Rightarrow> Some (True, receiveRays (decodeRays tr bs) s)
           | _ \<Rightarrow> None)
      | Bye \<Rightarrow> Some (True, s\<lparr>terminated := True\<rparr>)
      | StartBenchmark \<Rightarrow>
          (case payload message of
             Bytes c \<Rightarrow> processStartBenchmark c s
           | _ \<Rightarrow> None)
      | _ \<Rightarrow> None)"

text \<open>handleMessages: a message whose handler returns false is kept for the next pass.\<close>

fun processMessages ::
  "Tracer \<Rightarrow> time_point \<Rightarrow> Message list \<Rightarrow> Message list \<Rightarrow> LambdaWorker \<Rightarrow> LambdaWorker option"
where
  "processMessages tr now [] unprocessedMessages s =
     Some (s\<lparr>messageParser := unprocessedMessages\<rparr>)"
| "processMessages tr now (message # messages) unprocessedMessages s =
     (case processMessage tr now message s of
        None \<Rightarrow> None
      | Some (done, s') \<Rightarrow>
          processMessages tr now messages
            (if done then unprocessedMessages else unprocessedMessages @ [message]) s')"

definition handleMessages :: "Tracer \<Rightarrow> time_point \<Rightarrow> LambdaWorker \<Rightarrow> LambdaWorker option" where
  "handleMessages tr now s = processMessages tr now (messageParser s) [] (s\<lparr>messageParser := []\<rparr>)"

subsection \<open>handlePeers\<close>

text \<open>
  One pass over the peer table: the entries done so far, the entries to do, and the
  service packets. A connecting peer gets both connection requests again (pushed at the
  front, interface 0 first) and one more try; a connected peer other than the coordinator
  whose keep-alive is due gets a ping at the back.
\<close>

fun handlePeersLoop ::
  "time_point \<Rightarrow> WorkerId option \<Rightarrow> nat \<Rightarrow> (WorkerId \<times> Worker) list \<Rightarrow> ServicePacket list \<Rightarrow>
   ((WorkerId \<times> Worker) list \<times> ServicePacket list) option"
where
  "handlePeersLoop now wid sd [] packets = Some ([], packets)"
| "handlePeersLoop now wid sd ((peerId, peer) # rest) packets =
     (case state peer of
        Connecting \<Rightarrow>
          (case wid of
             None \<Rightarrow> None
           | Some w \<Rightarrow>
               (let request = (\<lambda>i a. (ServicePacket_ctor a (peer_id peer)
                                   (createConnectionRequest w sd peer i) False 0 False)\<lparr>iface := i\<rparr>)
                in map_option (\<lambda>(ps, packets'). ((peerId, peer\<lparr>tries := tries peer + 1\<rparr>) # ps, packets'))
                     (handlePeersLoop now wid sd rest
                        (request 1 (snd (address peer)) # request 0 (fst (address peer)) # packets))))
      | Connected \<Rightarrow>
          (if peerId > 0 \<and> nextKeepAlive peer < now then
             (case wid of
                None \<Rightarrow> None
              | Some w \<Rightarrow>
                  map_option (\<lambda>(ps, packets').
                      ((peerId, peer\<lparr>nextKeepAlive := nextKeepAlive peer + KEEP_ALIVE_INTERVAL\<rparr>) # ps, packets'))
                    (handlePeersLoop now wid sd rest
                       (packets @ [ServicePacket_ctor (fst (address peer)) (peer_id peer)
                          (Message_ctor w Ping (Bytes (be_bytes 8 w)) False 0 False) False 0 False])))
           else map_option (\<lambda>(ps, packets'). ((peerId, peer) # ps, packets'))
                  (handlePeersLoop now wid sd rest packets)))"

definition handlePeers :: "time_point \<Rightarrow> LambdaWorker \<Rightarrow> LambdaWorker option" where
  "handlePeers now s =
     map_option (\<lambda>(ps, packets). s\<lparr>peers := ps, servicePackets := packets\<rparr>)
       (handlePeersLoop now (workerId s) (mySeed s) (peers s) (servicePackets s))"

subsection \<open>Packet assembly (handleOutQueue)\<close>

text \<open>
  Modelled from the spec: \<open>protobuf::RecordWriter::write\<close> frames each record with a 4-byte
  big-endian length prefix.
\<close>

definition frame :: "byte list \<Rightarrow> byte list" where
  "frame str = be_bytes 4 (length str) @ str"

text \<open>
  The inner loop \<open>while (packetLen < UDP_MTU_BYTES && !outRays.empty())\<close>: the rays
  written to the packet so far, the rays still queued; the result is the rays written,
  the ray held back (\<open>unpackedRayPtr\<close>, with \<open>unpackedRayStr\<close> its serialized form) and the
  rays left in the queue.
\<close>

fun fillPacket ::
  "nat \<Rightarrow> RayState list \<Rightarrow> RayState list \<Rightarrow> RayState list \<times> RayState option \<times> RayState list"
where
  "fillPacket packetLen written [] = (written, None, [])"
| "fillPacket packetLen written (ray # outRays) =
     (if packetLen < UDP_MTU_BYTES then
        (let len = length (serialize ray) + 4 in
         if len + packetLen > UDP_MTU_BYTES then (written, Some ray, outRays)
         else fillPacket (packetLen + len) (written @ [ray]) outRays)
      else (written, None, ray # outRays))"

lemma fillPacket_rest:
  "fillPacket packetLen written outRays = (written', unpacked, outRays') \<Longrightarrow>
   length outRays' + (if unpacked = None then 0 else 1) \<le> length outRays \<and>
   (packetLen < UDP_MTU_BYTES \<and> outRays \<noteq> [] \<longrightarrow> length outRays' < length outRays)"
proof (induction packetLen written outRays rule: fillPacket.induct)
  case (1 packetLen written)
  then show ?case by simp
next
  case (2 packetLen written ray outRays)
  show ?case
  proof (cases "packetLen < UDP_MTU_BYTES \<and> \<not> length (serialize ray) + 4 + packetLen > UDP_MTU_BYTES")
    case True
    then have "fillPacket (packetLen + (length (serialize ray) + 4)) (written @ [ray]) outRays =
        (written', unpacked, outRays')"
      using "2.prems" by (simp add: Let_def)
    from "2.IH" [OF _ refl _ this] True
    have "length outRays' + (if unpacked = None then 0 else 1) \<le> length outRays"
      by simp
    then show ?thesis by simp
  next
    case False
    then show ?thesis using "2.prems" by (auto simp add: Let_def split: if_splits)
  qed
qed

text \<open>
  The loop \<open>while (!outRays.empty() || !unpackedRayStr.empty())\<close>, one packet per round.
  A held-back ray is written first, and then \<open>packetLen\<close> restarts from its length plus 4;
  otherwise \<open>packetLen\<close> starts from 25. The test for a held-back ray is the test of the
  source: \<open>unpackedRayStr\<close> is not empty. \<open>pos\<close> is the position in the random stream
  (\<open>packetLogBD(randEngine)\<close> draws once per packet; the draw is true on an odd value).
\<close>

definition unpackedRayStr :: "RayState option \<Rightarrow> byte list" where
  "unpackedRayStr unpacked = (case unpacked of None \<Rightarrow> [] | Some ray \<Rightarrow> serialize ray)"

function assemblePackets ::
  "WorkerId \<Rightarrow> bool \<Rightarrow> (nat \<Rightarrow> nat) \<Rightarrow> Worker \<Rightarrow> TreeletId \<Rightarrow>
   RayState list \<Rightarrow> RayState option \<Rightarrow> SeqNo \<Rightarrow> nat \<Rightarrow> RayPacket list"
where
  "assemblePackets wid reliably rnd peer treeletId outRays unpacked peerSeqNo pos =
     (if outRays = [] \<and> unpackedRayStr unpacked = [] then []
      else
        (case fillPacket
                (if unpackedRayStr unpacked \<noteq> [] then length (unpackedRayStr unpacked) + 4 else 25)
                (if unpackedRayStr unpacked \<noteq> [] then (case unpacked of None \<Rightarrow> [] | Some ray \<Rightarrow> [ray])
                 else [])
                outRays of
           (written, unpacked', outRays') \<Rightarrow>
             \<lparr>destination = fst (address peer), destinationId = peer_id peer,
              targetTreelet = treeletId, rayCount = length written,
              data = Message_ctor wid SendRays
                       (Bytes (concat (map (\<lambda>ray. frame (serialize ray)) written)))
                       reliably peerSeqNo (odd (rnd pos)),
              packet_reliable = reliably, sequenceNumber = peerSeqNo,
              packet_tracked = odd (rnd pos), packet_attempt = 0, retransmission = False,
              trackedRays = filter trackRay written\<rparr>
             # assemblePackets wid reliably rnd peer treeletId outRays' unpacked'
                 (peerSeqNo + 1) (pos + 1)))"
  by pat_completeness auto
termination assemblePackets
proof (relation "measure (\<lambda>(wid, reliably, rnd, peer, treeletId, outRays, unpacked, peerSeqNo, pos).
          2 * length outRays + (if unpackedRayStr unpacked = [] then 0 else 1))", goal_cases)
  case 1
  show ?case by simp
next
  case (2 wid reliably rnd peer treeletId outRays unpacked peerSeqNo pos written y unpacked' outRays')
  then have fp: "fillPacket
      (if unpackedRayStr unpacked \<noteq> [] then length (unpackedRayStr unpacked) + 4 else 25)
      (if unpackedRayStr unpacked \<noteq> [] then (case unpacked of None \<Rightarrow> [] | Some ray \<Rightarrow> [ray]) else [])
      outRays = (written, unpacked', outRays')"
    by simp
  note r = fillPacket_rest [OF fp]
  have carry: "unpackedRayStr unpacked' \<noteq> [] \<Longrightarrow> unpacked' \<noteq> None"
    by (cases unpacked') (simp_all add: unpackedRayStr_def)
  show ?case
  proof (cases "unpackedRayStr unpacked = []")
    case True
    with 2 have "outRays \<noteq> []" by simp
    with r True have "length outRays' < length outRays"
      by (simp add: UDP_MTU_BYTES_def)
    with r carry show ?thesis using True by (auto split: if_splits)
  next
    case False
    with r carry show ?thesis by (auto split: if_splits)
  qed
qed

text \<open>
  One pass over \<open>outQueue\<close>. For a non-empty deque: a peer is drawn from
  \<open>treeletToWorker[treeletId]\<close> (\<open>None\<close>: there is no candidate, or \<open>peers.at\<close> throws, or
  \<open>*workerId\<close> is not set), the packets are assembled with the sequence numbers of
  \<open>sequenceNumbers[peer.address[0]]\<close> (0 for a new address), which is incremented once per
  packet, and every ray popped decrements \<open>outQueueSize\<close>; the deque is left empty.
\<close>

fun handleOutQueueLoop ::
  "(TreeletId \<times> RayState list) list \<Rightarrow> LambdaWorker \<Rightarrow>
   ((TreeletId \<times> RayState list) list \<times> LambdaWorker) option"
where
  "handleOutQueueLoop [] s = Some ([], s)"
| "handleOutQueueLoop ((treeletId, outRays) # rest) s =
     (if outRays = [] then
        map_option (\<lambda>(qs, s'). ((treeletId, outRays) # qs, s')) (handleOutQueueLoop rest s)
      else
        (let candidates = deque_at (treeletToWorker s) treeletId in
         if candidates = [] then None
         else
           (case map_of (peers s) (candidates ! (randEngine s (randPos s) mod length candidates)) of
              None \<Rightarrow> None
            | Some peer \<Rightarrow>
                (case workerId s of
                   None \<Rightarrow> None
                 | Some wid \<Rightarrow>
                     (let peerSeqNo = counter_at (sequenceNumbers s) (fst (address peer));
                          packets = assemblePackets wid (sendReliably s) (randEngine s) peer
                                      treeletId outRays None peerSeqNo (randPos s + 1)
                      in map_option (\<lambda>(qs, s'). ((treeletId, []) # qs, s'))
                           (handleOutQueueLoop rest
                              (s\<lparr>sequenceNumbers := (sequenceNumbers s)(fst (address peer) \<mapsto>
                                     peerSeqNo + of_nat (length packets)),
                                 rayPackets := rayPackets s @ packets,
                                 outQueueSize := outQueueSize s - of_nat (length outRays),
                                 randPos := randPos s + 1 + length packets\<rparr>)))))))"

definition handleOutQueue :: "LambdaWorker \<Rightarrow> LambdaWorker option" where
  "handleOutQueue s =
     map_option (\<lambda>(qs, s'). s'\<lparr>outQueue := qs\<rparr>) (handleOutQueueLoop (outQueue s) s)"

subsection \<open>Sending (handleUdpSend)\<close>

text \<open>
  The lambda \<open>sendUdpPacket\<close>: the datagram goes out on \<open>udpConnection[iface]\<close>, a vector of
  two connections (\<open>None\<close>: no such interface).
\<close>

definition sendUdpPacket :: "Address \<Rightarrow> Message \<Rightarrow> nat \<Rightarrow> LambdaWorker \<Rightarrow> LambdaWorker option" where
  "sendUdpPacket peer pl ifc s =
     (if ifc < 2 then Some (s\<lparr>udpSent := udpSent s @ [(ifc, peer, pl)]\<rparr>) else None)"

text \<open>The scan of \<open>servicePackets\<close> for the first datagram of the interface, and the list without it.\<close>

fun findServicePacket :: "nat \<Rightarrow> ServicePacket list \<Rightarrow> (ServicePacket \<times> ServicePacket list) option" where
  "findServicePacket ifc [] = None"
| "findServicePacket ifc (datagram # rest) =
     (if iface datagram \<noteq> ifc then
        map_option (\<lambda>(d, rest'). (d, datagram # rest')) (findServicePacket ifc rest)
      else Some (datagram, rest))"

definition handleUdpSend :: "nat \<Rightarrow> time_point \<Rightarrow> LambdaWorker \<Rightarrow> LambdaWorker option" where
  "handleUdpSend ifc now s =
     (case findServicePacket ifc (servicePackets s) of
        Some (datagram, rest) \<Rightarrow>
          map_option (\<lambda>s'. s'\<lparr>servicePackets := rest\<rparr>)
            (sendUdpPacket (service_destination datagram) (service_data datagram) (iface datagram) s)
      | None \<Rightarrow>
          (case rayPackets s of
             [] \<Rightarrow> Some s
           | packet # packets \<Rightarrow>
               if ifc \<noteq> 0 then Some s
               else
                 map_option
                   (\<lambda>s'. (let sent = packet\<lparr>trackedRays :=
                                      map (\<lambda>ray. ray\<lparr>tick := tick ray + 1\<rparr>) (trackedRays packet)\<rparr>
                          in (if packet_reliable packet then
                                s'\<lparr>outstandingRayPackets :=
                                     outstandingRayPackets s' @ [(now + PACKET_TIMEOUT, sent)]\<rparr>
                              else s')\<lparr>rayPackets := packets\<rparr>))
                   (sendUdpPacket (destination packet) (data packet) 0 s)))"

subsection \<open>Acknowledgements and retransmission (handleRayAcknowledgements)\<close>

text \<open>
  The loop over the entries of one source in \<open>toBeAcked\<close>: \<open>ack\<close> is the string built so far.
  An ack message is flushed when the string has reached the MTU or at the last entry.
  The state threaded is the ack id, the position in the random stream and the service
  packets.
\<close>

fun sendAcksTo ::
  "WorkerId option \<Rightarrow> (nat \<Rightarrow> nat) \<Rightarrow> Address \<Rightarrow> WorkerId \<Rightarrow>
   (SeqNo \<times> bool \<times> 16 word) list \<Rightarrow> byte list \<Rightarrow> SeqNo \<times> nat \<times> ServicePacket list \<Rightarrow>
   (SeqNo \<times> nat \<times> ServicePacket list) option"
where
  "sendAcksTo wid rnd addr destId [] ack st = Some st"
| "sendAcksTo wid rnd addr destId (r # received) ack (myAckId, pos, packets) =
     (let ack' = ack @ put_ack r in
      if length ack' \<ge> UDP_MTU_BYTES \<or> received = [] then
        (case wid of
           None \<Rightarrow> None
         | Some w \<Rightarrow>
             sendAcksTo wid rnd addr destId received []
               (myAckId + 1, pos + 1,
                packets @ [ServicePacket_ctor addr destId
                   (Message_ctor w Ack (Bytes ack') False myAckId (odd (rnd pos)))
                   True myAckId (odd (rnd pos))]))
      else sendAcksTo wid rnd addr destId received ack' (myAckId, pos, packets))"

text \<open>
  The loop over \<open>toBeAcked\<close>; \<open>addressToWorker[address]\<close> adds the address with worker id 0
  when it is not there.
\<close>

fun sendAcks ::
  "(Address \<times> (SeqNo \<times> bool \<times> 16 word) list) list \<Rightarrow> LambdaWorker \<Rightarrow> LambdaWorker option"
where
  "sendAcks [] s = Some s"
| "sendAcks ((addr, received) # rest) s =
     (let a2w = emplace (addressToWorker s) addr 0;
          destId = (case a2w addr of None \<Rightarrow> 0 | Some w \<Rightarrow> w)
      in case sendAcksTo (workerId s) (randEngine s) addr destId received []
                (ackId s, randPos s, servicePackets s) of
           None \<Rightarrow> None
         | Some (aId, pos, packets) \<Rightarrow>
             sendAcks rest (s\<lparr>addressToWorker := a2w, ackId := aId, randPos := pos,
                              servicePackets := packets\<rparr>))"

text \<open>
  The retransmission loop: \<open>outstanding\<close> is \<open>outstandingRayPackets\<close> from its front.
  \<open>receivedAcks[packet.destination]\<close> adds the destination with an empty set when it is
  not there. The branch \<open>if (false && packet.attempt > 1)\<close> never runs.
\<close>

fun retransmit :: "time_point \<Rightarrow> (time_point \<times> RayPacket) list \<Rightarrow> LambdaWorker \<Rightarrow> LambdaWorker" where
  "retransmit now [] s = s\<lparr>outstandingRayPackets := []\<rparr>"
| "retransmit now ((deadline, packet) # outstanding) s =
     (if receivedAcks s \<noteq> [] \<and> deadline \<le> now then
        (let thisReceivedAcks = set_at (map_of (receivedAcks s)) (destination packet);
             s1 = s\<lparr>receivedAcks := map_put (destination packet) thisReceivedAcks (receivedAcks s)\<rparr>
         in retransmit now outstanding
              (if sequenceNumber packet \<notin> thisReceivedAcks then
                 s1\<lparr>rayPackets := rayPackets s1 @ [(incrementAttempts packet)\<lparr>retransmission := True\<rparr>]\<rparr>
               else s1))
      else s\<lparr>outstandingRayPackets := (deadline, packet) # outstanding\<rparr>)"

definition handleRayAcknowledgements :: "time_point \<Rightarrow> LambdaWorker \<Rightarrow> LambdaWorker option" where
  "handleRayAcknowledgements now s =
     (case sendAcks (toBeAcked s) s of
        None \<Rightarrow> None
      | Some s' \<Rightarrow> Some (retransmit now (outstandingRayPackets s') (s'\<lparr>toBeAcked := []\<rparr>)))"

text \<open>The predicate of the \<open>RayAcks\<close> action (constructor, lines 129-133).\<close>

definition rayAcksPredicate :: "time_point \<Rightarrow> LambdaWorker \<Rightarrow> bool" where
  "rayAcksPredicate now s \<longleftrightarrow>
     toBeAcked s \<noteq> [] \<or>
     (receivedAcks s \<noteq> [] \<and> outstandingRayPackets s \<noteq> [] \<and>
      fst (hd (outstandingRayPackets s)) \<le> now)"

subsection \<open>Receiving (handleUdpReceive)\<close>

text \<open>
  The payload of an \<open>Ack\<close>: triples of eleven bytes, read while the chunk is not empty;
  \<open>None\<close> when the chunk ends inside a triple.
\<close>

function parseAcks :: "byte list \<Rightarrow> SeqNo list option" where
  "parseAcks chunk =
     (if chunk = [] then Some []
      else if length chunk < 11 then None
      else map_option ((#) (of_nat (be_value (take 8 chunk)))) (parseAcks (drop 11 chunk)))"
  by pat_completeness auto
termination parseAcks
  by (relation "measure length") auto

text \<open>
  The walk over \<open>completed_messages\<close> from the newest message to the oldest; the list
  given is in that order, and so is the list returned (the messages that stay). The walk
  stops at a message already read. A reliable message is noted in \<open>toBeAcked[source]\<close>;
  when its sequence number is already in \<open>receivedPacketSeqNos[source]\<close> it is erased,
  otherwise the number is inserted. An \<open>Ack\<close> adds its sequence numbers to
  \<open>receivedAcks[source]\<close> and is erased.
\<close>

definition noteToBeAcked :: "Address \<Rightarrow> Message \<Rightarrow> LambdaWorker \<Rightarrow> LambdaWorker" where
  "noteToBeAcked src it s =
     s\<lparr>toBeAcked := map_put src
          (deque_at (map_of (toBeAcked s)) src @ [(sequence_number it, tracked it, attempt it)])
          (toBeAcked s)\<rparr>"

definition noteReceived :: "Address \<Rightarrow> SeqNo \<Rightarrow> LambdaWorker \<Rightarrow> LambdaWorker" where
  "noteReceived src seqNo s =
     s\<lparr>receivedPacketSeqNos := (receivedPacketSeqNos s)(src \<mapsto>
          insert seqNo (set_at (receivedPacketSeqNos s) src))\<rparr>"

definition noteAcks :: "Address \<Rightarrow> SeqNo list \<Rightarrow> LambdaWorker \<Rightarrow> LambdaWorker" where
  "noteAcks src seqNos s =
     s\<lparr>receivedAcks := map_put src
          (set_at (map_of (receivedAcks s)) src \<union> set seqNos) (receivedAcks s)\<rparr>"

text \<open>
  The block \<open>if (it->reliable())\<close>: the new state, and whether the message is a duplicate
  to erase.
\<close>

definition acknowledge :: "Address \<Rightarrow> Message \<Rightarrow> LambdaWorker \<Rightarrow> bool \<times> LambdaWorker" where
  "acknowledge src it s =
     (if reliable it then
        (let seqNo = sequence_number it;
             s1 = noteToBeAcked src it s
         in if seqNo \<in> set_at (receivedPacketSeqNos s1) src then (True, s1)
            else (False, noteReceived src seqNo s1))
      else (False, s))"

fun receiveWalk :: "Address \<Rightarrow> Message list \<Rightarrow> LambdaWorker \<Rightarrow> (Message list \<times> LambdaWorker) option" where
  "receiveWalk src [] s = Some ([], s)"
| "receiveWalk src (m # older) s =
     (if is_read m then Some (m # older, s)
      else
        (let it = m\<lparr>is_read := True\<rparr> in
         case acknowledge src it s of
           (True, s1) \<Rightarrow> receiveWalk src older s1
         | (False, s2) \<Rightarrow>
             if opcode it = Ack then
               (case payload it of
                  Bytes chunk \<Rightarrow>
                    (case parseAcks chunk of
                       None \<Rightarrow> None
                     | Some seqNos \<Rightarrow> receiveWalk src older (noteAcks src seqNos s2))
                | _ \<Rightarrow> None)
             else map_option (\<lambda>(kept, s'). (it # kept, s')) (receiveWalk src older s2)))"

text \<open>
  handleUdpReceive: \<open>datagram\<close> is the source address and the messages the parser (external)
  completes from the bytes received, appended unread to \<open>completed_messages\<close>.
\<close>

definition handleUdpReceive :: "Address \<times> Message list \<Rightarrow> LambdaWorker \<Rightarrow> LambdaWorker option" where
  "handleUdpReceive datagram s =
     map_option (\<lambda>(kept, s'). s'\<lparr>messageParser := rev kept\<rparr>)
       (receiveWalk (fst datagram)
          (rev (messageParser s @ map (\<lambda>m. m\<lparr>is_read := False\<rparr>) (snd datagram))) s)"

subsection \<open>The worker as constructed\<close>

text \<open>
  The constructor leaves every queue, map and set empty; \<open>mySeed\<close> is a non-zero random
  number, the coordinator's address and the configuration are arguments.
\<close>

definition initialWorker :: "nat \<Rightarrow> Address \<Rightarrow> bool \<Rightarrow> (nat \<Rightarrow> nat) \<Rightarrow> LambdaWorker" where
  "initialWorker sd coordinator reliably rnd =
     \<lparr>workerId = None, mySeed = sd, coordinatorAddr = coordinator, sendReliably = reliably,
      peers = [], addressToWorker = Map.empty, treeletIds = {},
      treeletToWorker = Map.empty, neededTreelets = {}, requestedTreelets = {},
      rayQueue = [], outQueue = [], pendingQueue = Map.empty, finishedQueue = [],
      finishedPathIds = [], outQueueSize = 0, pendingQueueSize = 0,
      sequenceNumbers = Map.empty, rayPackets = [], servicePackets = [],
      outstandingRayPackets = [], receivedAcks = [], toBeAcked = [],
      receivedPacketSeqNos = Map.empty, ackId = 0, messageParser = [], udpSent = [],
      randEngine = rnd, randPos = 0, terminated = False\<rparr>"

subsection \<open>Finished rays, and the reactor\<close>

datatype FinishedRayAction = Discard | SendBack | Upload

text \<open>
  handleFinishedQueue: \<open>Discard\<close> clears the queue, \<open>SendBack\<close> drains it into a message for
  the coordinator (the TCP connection is not modelled), \<open>Upload\<close> does nothing.
\<close>

definition handleFinishedQueue :: "FinishedRayAction \<Rightarrow> LambdaWorker \<Rightarrow> LambdaWorker" where
  "handleFinishedQueue action s =
     (case action of
        Discard \<Rightarrow> s\<lparr>finishedQueue := []\<rparr>
      | SendBack \<Rightarrow> s\<lparr>finishedQueue := []\<rparr>
      | Upload \<Rightarrow> s)"

text \<open>
  The states the worker reaches: it starts as constructed, and each step is one callback
  of the reactor run to completion without an exception: one of the handlers registered
  in the constructor, or the callback of the coordinator's TCP connection, which pushes the
  parsed messages onto \<open>messageParser\<close>. (handleWorkerStats and handleDiagnostics change
  none of the fields modelled; handleNeededTreelets and handleFinishedPaths are not
  registered.)
\<close>

inductive reachable :: "LambdaWorker \<Rightarrow> bool" where
  constructed: "sd \<noteq> 0 \<Longrightarrow> reachable (initialWorker sd coordinator reliably rnd)"
| tcp_data: "reachable s \<Longrightarrow> reachable (s\<lparr>messageParser := messageParser s @ messages\<rparr>)"
| udp_receive: "reachable s \<Longrightarrow> handleUdpReceive datagram s = Some s' \<Longrightarrow> reachable s'"
| ray_acks: "reachable s \<Longrightarrow> handleRayAcknowledgements now s = Some s' \<Longrightarrow> reachable s'"
| udp_send: "reachable s \<Longrightarrow> handleUdpSend ifc now s = Some s' \<Longrightarrow> reachable s'"
| ray_queue: "reachable s \<Longrightarrow> handleRayQueue tr s = Some s' \<Longrightarrow> reachable s'"
| out_queue: "reachable s \<Longrightarrow> handleOutQueue s = Some s' \<Longrightarrow> reachable s'"
| finished_queue: "reachable s \<Longrightarrow> reachable (handleFinishedQueue action s)"
| peers_timer: "reachable s \<Longrightarrow> handlePeers now s = Some s' \<Longrightarrow> reachable s'"
| messages: "reachable s \<Longrightarrow> handleMessages tr now s = Some s' \<Longrightarrow> reachable s'"

subsection \<open>Example values\<close>

text \<open>Values for running the model: a ray in a treelet, with a serialized form.\<close>

definition exampleRay :: "nat \<Rightarrow> TreeletId \<Rightarrow> byte list \<Rightarrow> RayState" where
  "exampleRay n t str =
     \<lparr>PathID = n, toVisitEmpty = False, hit = False, isShadowRay = False, Ld = 0,
      trackRay = False, hop = 0, tick = 0, CurrentTreelet = t, serialize = str\<rparr>"

definition exampleWorker :: LambdaWorker where
  "exampleWorker = (initialWorker 7 100 True (\<lambda>n. 0))\<lparr>workerId := Some 1\<rparr>"

definition examplePacket :: "Address \<Rightarrow> SeqNo \<Rightarrow> bool \<Rightarrow> RayPacket" where
  "examplePacket addr seqNo reliably =
     \<lparr>destination = addr, destinationId = 2, targetTreelet = 1, rayCount = 0,
      data = Message_ctor 1 SendRays (Bytes []) reliably seqNo False,
      packet_reliable = reliably, sequenceNumber = seqNo, packet_tracked = False,
      packet_attempt = 0, retransmission = False, trackedRays = []\<rparr>"

definition exampleServicePacket :: "Address \<Rightarrow> nat \<Rightarrow> ServicePacket" where
  "exampleServicePacket addr ifc =
     (ServicePacket_ctor addr 2 (Message_ctor 1 Ping (Bytes []) False 0 False) False 0 False)
     \<lparr>iface := ifc\<rparr>"

text \<open>
  A worker that has an ack from address 8 only, and an outstanding reliable packet for
  address 9 whose deadline has passed.
\<close>

definition retransmitExample :: LambdaWorker where
  "retransmitExample =
     exampleWorker\<lparr>receivedAcks := [(8, {5})],
                    outstandingRayPackets := [(0, examplePacket 9 1 True)]\<rparr>"

definition exampleMessage :: "SeqNo \<Rightarrow> Message" where
  "exampleMessage seqNo = Message_ctor 2 SendRays (Bytes []) True seqNo False"


definition waitingMessage :: Message where
  "waitingMessage = Message_ctor 0 Ping (Bytes []) True 5 False"

definition waitingExample :: LambdaWorker where
  "waitingExample =
     (initialWorker 7 100 True (\<lambda>n. 0))
       \<lparr>toBeAcked := [(20, [(5, False, 0)])], receivedPacketSeqNos := [20 \<mapsto> {5}],
        messageParser := [(exampleMessage 5)\<lparr>is_read := True\<rparr>, waitingMessage]\<rparr>"

definition exampleTracer :: Tracer where
  "exampleTracer =
     \<lparr>Trace = (\<lambda>ray. ray), Shade = (\<lambda>ray. ([], True)), cameraRays = (\<lambda>bounds. []),
      decodeRays = (\<lambda>bs. [])\<rparr>"

text \<open>
  A worker (seed 7) that knows peer 2, still connecting on both interfaces, and holds one
  ray for treelet 1, which nobody is known to own; and the peer's connection response on
  an interface, announcing treelet 1.
\<close>

definition handshakeExample :: LambdaWorker where
  "handshakeExample =
     exampleWorker\<lparr>peers := [(2, Worker_ctor 2)],
                    pendingQueue := [1 \<mapsto> [exampleRay 0 1 []]],
                    pendingQueueSize := 1, neededTreelets := {1}\<rparr>"

definition exampleResponse :: "nat \<Rightarrow> Message" where
  "exampleResponse addressNo =
     Message_ctor 2 ConnectionResponse
       (ConnectResponse_payload \<lparr>rs_worker_id = 2, rs_my_seed = 9, rs_your_seed = 7,
          rs_address_no = addressNo, rs_treelet_ids = [1]\<rparr>) False 0 False"

text \<open>
  The messages of a start-up: the coordinator's \<open>Hey\<close> and \<open>ConnectTo\<close> for peer 2, then the
  peer's responses on both interfaces.
\<close>

definition startupMessages :: "Message list" where
  "startupMessages =
     [Message_ctor 0 Hey (Hey_payload 1 ''job'') False 0 False,
      Message_ctor 0 ConnectTo
        (ConnectTo_payload \<lparr>ct_worker_id = 2, ct_address = [20, 21]\<rparr>) False 0 False,
      exampleResponse 0, exampleResponse 1]"

text \<open>
  A tracer that moves a ray into the treelet numbered by the ray's path, and a worker
  that owns treelet 0, knows peer 2 as the owner of treelet 1, and has three rays of
  treelet 0 in its ray queue.
\<close>

definition movingTracer :: Tracer where
  "movingTracer =
     \<lparr>Trace = (\<lambda>ray. ray\<lparr>CurrentTreelet := PathID ray\<rparr>), Shade = (\<lambda>ray. ([], True)),
      cameraRays = (\<lambda>bounds. []), decodeRays = (\<lambda>bs. [])\<rparr>"

definition tracingExample :: LambdaWorker where
  "tracingExample =
     exampleWorker\<lparr>treeletIds := {0}, treeletToWorker := [1 \<mapsto> [2]],
                    rayQueue := [exampleRay 0 0 [], exampleRay 1 0 [], exampleRay 2 0 []]\<rparr>"

text \<open>The length of the payload string of a ray packet's message.\<close>

definition payloadLength :: "RayPacket \<Rightarrow> nat" where
  "payloadLength packet = (case payload (data packet) of Bytes bs \<Rightarrow> length bs | _ \<Rightarrow> 0)"

text \<open>The payload string of a ray packet's message, and a held-back ray as a list.\<close>

definition payloadBytes :: "RayPacket \<Rightarrow> byte list" where
  "payloadBytes packet = (case payload (data packet) of Bytes bs \<Rightarrow> bs | _ \<Rightarrow> [])"

definition heldBack :: "RayState option \<Rightarrow> RayState list" where
  "heldBack unpacked = (case unpacked of None \<Rightarrow> [] | Some ray \<Rightarrow> [ray])"

text \<open>
  A worker that knows peer 2 (address 20 on interface 0) as the owner of treelet 1 and
  has queued, for treelet 1, rays whose serialized forms have the given lengths.
\<close>

definition assemblyExample :: "nat list \<Rightarrow> LambdaWorker" where
  "assemblyExample lengths =
     exampleWorker\<lparr>peers := [(2, (Worker_ctor 2)\<lparr>address := (20, 21), connected := (True, True),
                                  state := Connected\<rparr>)],
                    treeletToWorker := [1 \<mapsto> [2]],
                    outQueue := [(1, map (\<lambda>n. exampleRay 0 1 (replicate n 0)) lengths)],
                    outQueueSize := of_nat (length lengths)\<rparr>"

subsection \<open>Predicates of the proofs\<close>

text \<open>
  What a receive may change: \<open>toBeAcked\<close>, \<open>receivedPacketSeqNos\<close> and \<open>receivedAcks\<close> (and,
  in handleUdpReceive, the message queue), and no set of received sequence numbers
  shrinks.
\<close>

definition receiveFrame :: "LambdaWorker \<Rightarrow> LambdaWorker \<Rightarrow> bool" where
  "receiveFrame s s' \<longleftrightarrow>
     (\<exists>t r a. s' = s\<lparr>toBeAcked := t, receivedPacketSeqNos := r, receivedAcks := a\<rparr>) \<and>
     (\<forall>x. set_at (receivedPacketSeqNos s) x \<subseteq> set_at (receivedPacketSeqNos s') x)"

text \<open>
  The classification of a batch of rays, between the state before and the state after:
  by the treelet each ray is in, the rays of the worker's own treelets are appended to
  the ray queue, the rays of a treelet with an entry in \<open>treeletToWorker\<close> to the treelet's
  out queue, counted in \<open>outQueueSize\<close>, and the others to the treelet's pending queue,
  counted in \<open>pendingQueueSize\<close>, their treelets inserted into \<open>neededTreelets\<close>.
\<close>

definition classified :: "RayState list \<Rightarrow> LambdaWorker \<Rightarrow> LambdaWorker \<Rightarrow> bool" where
  "classified rays s s' \<longleftrightarrow>
     rayQueue s' = rayQueue s @ filter (\<lambda>r. CurrentTreelet r \<in> treeletIds s) rays \<and>
     (\<forall>t. deque_at (map_of (outQueue s')) t =
          deque_at (map_of (outQueue s)) t @
          filter (\<lambda>r. CurrentTreelet r = t \<and> t \<notin> treeletIds s \<and> treeletToWorker s t \<noteq> None) rays) \<and>
     outQueueSize s' =
       outQueueSize s + of_nat (length (filter (\<lambda>r. CurrentTreelet r \<notin> treeletIds s \<and>
         treeletToWorker s (CurrentTreelet r) \<noteq> None) rays)) \<and>
     (\<forall>t. deque_at (pendingQueue s') t =
          deque_at (pendingQueue s) t @
          filter (\<lambda>r. CurrentTreelet r = t \<and> t \<notin> treeletIds s \<and> treeletToWorker s t = None) rays) \<and>
     pendingQueueSize s' =
       pendingQueueSize s + of_nat (length (filter (\<lambda>r. CurrentTreelet r \<notin> treeletIds s \<and>
         treeletToWorker s (CurrentTreelet r) = None) rays)) \<and>
     neededTreelets s' =
       neededTreelets s \<union> CurrentTreelet ` {r \<in> set rays. CurrentTreelet r \<notin> treeletIds s \<and>
         treeletToWorker s (CurrentTreelet r) = None}"

text \<open>
  The invariant of the out queues: a worker that knows a peer has its own id; a treelet
  with an entry in \<open>treeletToWorker\<close> has at least one worker there, and only known peers;
  and a non-empty out queue is the queue of a treelet with such an entry.
\<close>

definition served :: "LambdaWorker \<Rightarrow> bool" where
  "served s \<longleftrightarrow>
     (peers s \<noteq> [] \<longrightarrow> workerId s \<noteq> None) \<and>
     (\<forall>t ws. treeletToWorker s t = Some ws \<longrightarrow> ws \<noteq> [] \<and> set ws \<subseteq> fst ` set (peers s)) \<and>
     (\<forall>(t, outRays) \<in> set (outQueue s). outRays \<noteq> [] \<longrightarrow> treeletToWorker s t \<noteq> None)"

text \<open>
  The invariant of the counters: no counter of \<open>sequenceNumbers\<close> has counted more
  packets than values have been drawn from the random engine (every packet draws one).
\<close>

definition counted :: "LambdaWorker \<Rightarrow> bool" where
  "counted s \<longleftrightarrow> (\<forall>a. unat (counter_at (sequenceNumbers s) a) \<le> randPos s)"

text \<open>The invariant of the peer table: a connected peer has both interface flags set.\<close>

definition peersOk :: "(WorkerId \<times> Worker) list \<Rightarrow> bool" where
  "peersOk ps \<longleftrightarrow> (\<forall>(pid, p) \<in> set ps. state p = Connected \<longrightarrow> connected p = (True, True))"

section \<open>messages/utils.cpp: a parameter set as a protobuf message\<close>

text \<open>
  \<open>ParamSet\<close> (core/paramset.h) is not among the sources; \<open>to_protobuf\<close> reads its eleven
  vectors of items, each item a name with \<open>nValues\<close> values. The conversions of the single
  values (\<open>to_protobuf(Point2f)\<close> and the like) copy the coordinates, so an item of the
  message is the item itself. \<open>from_protobuf\<close> builds its result through
  \<open>ParamSet::AddBool\<close>, \<open>AddPoint2f\<close> and so on, which are not among the sources either:
  it is not modelled.
\<close>

type_synonym 'a ParamSetItem = "string \<times> 'a list"

record ParamSet =
  bools :: "bool ParamSetItem list"
  ints :: "int ParamSetItem list"
  floats :: "real ParamSetItem list"
  point2fs :: "(real \<times> real) ParamSetItem list"
  vector2fs :: "(real \<times> real) ParamSetItem list"
  point3fs :: "(real \<times> real \<times> real) ParamSetItem list"
  vector3fs :: "(real \<times> real \<times> real) ParamSetItem list"
  normals :: "(real \<times> real \<times> real) ParamSetItem list"
  spectra :: "(real \<times> real \<times> real) ParamSetItem list"
  strings :: "string ParamSetItem list"
  textures :: "string ParamSetItem list"

record ParamSet_proto =
  proto_bools :: "bool ParamSetItem list"
  proto_ints :: "int ParamSetItem list"
  proto_floats :: "real ParamSetItem list"
  proto_point2fs :: "(real \<times> real) ParamSetItem list"
  proto_vector2fs :: "(real \<times> real) ParamSetItem list"
  proto_point3fs :: "(real \<times> real \<times> real) ParamSetItem list"
  proto_vector3fs :: "(real \<times> real \<times> real) ParamSetItem list"
  proto_normals :: "(real \<times> real \<times> real) ParamSetItem list"
  proto_spectra :: "(real \<times> real \<times> real) ParamSetItem list"
  proto_strings :: "string ParamSetItem list"
  proto_textures :: "string ParamSetItem list"

text \<open>
  One loop of \<open>to_protobuf\<close>: every item of the vector is added at the end of the repeated
  field. The twelve loops run in the order of the source; the loop over \<open>ps.point2fs\<close>
  is there twice (lines 216 and 220).
\<close>

definition add_all :: "'a ParamSetItem list \<Rightarrow> 'a ParamSetItem list \<Rightarrow> 'a ParamSetItem list" where
  "add_all items field = field @ items"

definition to_protobuf :: "ParamSet \<Rightarrow> ParamSet_proto" where
  "to_protobuf ps =
     (let p0 = \<lparr>proto_bools = [], proto_ints = [], proto_floats = [], proto_point2fs = [],
                proto_vector2fs = [], proto_point3fs = [], proto_vector3fs = [],
                proto_normals = [], proto_spectra = [], proto_strings = [],
                proto_textures = []\<rparr>;
          p1 = p0\<lparr>proto_bools := add_all (bools ps) (proto_bools p0)\<rparr>;
          p2 = p1\<lparr>proto_ints := add_all (ints ps) (proto_ints p1)\<rparr>;
          p3 = p2\<lparr>proto_floats := add_all (floats ps) (proto_floats p2)\<rparr>;
          p4 = p3\<lparr>proto_point2fs := add_all (point2fs ps) (proto_point2fs p3)\<rparr>;
          p5 = p4\<lparr>proto_vector2fs := add_all (vector2fs ps) (proto_vector2fs p4)\<rparr>;
          p6 = p5\<lparr>proto_point3fs := add_all (point3fs ps) (proto_point3fs p5)\<rparr>;
          p7 = p6\<lparr>proto_vector3fs := add_all (vector3fs ps) (proto_vector3fs p6)\<rparr>;
          p8 = p7\<lparr>proto_point2fs := add_all (point2fs ps) (proto_point2fs p7)\<rparr>;
          p9 = p8\<lparr>proto_normals := add_all (normals ps) (proto_normals p8)\<rparr>;
          p10 = p9\<lparr>proto_spectra := add_all (spectra ps) (proto_spectra p9)\<rparr>;
          p11 = p10\<lparr>proto_strings := add_all (strings ps) (proto_strings p10)\<rparr>
      in p11\<lparr>proto_textures := add_all (textures ps) (proto_textures p11)\<rparr>)"

section \<open>Properties\<close>

subsection \<open>Maps in key order\<close>

lemma map_of_map_put: "map_of (map_put k v m) = (map_of m)(k \<mapsto> v)"
  by (induction m) (auto simp add: fun_eq_iff)

lemma map_put_not_Nil [simp]: "map_put k v m \<noteq> []"
  by (cases m) (auto split: if_splits)

lemma set_map_put_subset: "set (map_put k v m) \<subseteq> insert (k, v) (set m)"
  by (induction m) (auto split: if_splits)

text \<open>A map built by \<open>map_put\<close> alone is in the strict order of its keys.\<close>

lemma sorted_map_put:
  "sorted_wrt (<) (map fst m) \<Longrightarrow> sorted_wrt (<) (map fst (map_put k v m))"
proof (induction m)
  case Nil
  show ?case by simp
next
  case (Cons e m)
  have "\<forall>x\<in>set (map_put k v m). fst x = k \<or> x \<in> set m"
    using set_map_put_subset [of k v m] by auto
  with Cons show ?case by (cases e) fastforce
qed

subsection \<open>pluralize\<close>

text \<open>
  C10. For every word and every count, \<open>pluralize word count\<close> is the word followed by
  \<open>s\<close> exactly when the count is 1, and is the word itself for every other count
  (0 and all counts above 1 included).
\<close>

theorem pluralize_suffix_iff_one:
  "(pluralize word count = word @ ''s'' \<longleftrightarrow> count = 1) \<and>
   (count \<noteq> 1 \<longrightarrow> pluralize word count = word)"
  by (simp add: pluralize_def)

theorem pluralize_suffix_iff_one_witness:
  "pluralize ''ray'' 1 = ''rays'' \<and> pluralize ''ray'' 0 = ''ray'' \<and> pluralize ''ray'' 2 = ''ray''"
  using pluralize_suffix_iff_one [of "''ray''" 1] pluralize_suffix_iff_one [of "''ray''" 0]
    pluralize_suffix_iff_one [of "''ray''" 2]
  by simp

subsection \<open>Classification of rays\<close>

lemma classifyGenerated_eq: "classifyGenerated = classifyProcessed"
  by (intro ext) (simp add: classifyGenerated_def classifyProcessed_def)

lemma generateRays_eq: "generateRays rs s = drainProcessed rs s"
  by (induction rs arbitrary: s) (simp_all add: classifyGenerated_eq)

lemma classifyProcessed_treeletIds [simp]:
  "treeletIds (classifyProcessed r s) = treeletIds s"
  by (simp add: classifyProcessed_def pushRayQueue_def Let_def)

lemma classifyProcessed_treeletToWorker [simp]:
  "treeletToWorker (classifyProcessed r s) = treeletToWorker s"
  by (simp add: classifyProcessed_def pushRayQueue_def Let_def)

lemma drain_rayQueue:
  "rayQueue (drainProcessed rs s) = rayQueue s @ filter (\<lambda>r. CurrentTreelet r \<in> treeletIds s) rs"
  by (induction rs arbitrary: s) (simp_all add: classifyProcessed_def pushRayQueue_def Let_def)

lemma drain_outQueue:
  "deque_at (map_of (outQueue (drainProcessed rs s))) t =
   deque_at (map_of (outQueue s)) t @
   filter (\<lambda>r. CurrentTreelet r = t \<and> t \<notin> treeletIds s \<and> treeletToWorker s t \<noteq> None) rs"
proof (induction rs arbitrary: s)
  case Nil
  show ?case by simp
next
  case (Cons r rs)
  show ?case
    by (simp add: Cons.IH)
       (simp add: classifyProcessed_def pushRayQueue_def Let_def map_of_map_put deque_at_def)
qed

lemma drain_pendingQueue:
  "deque_at (pendingQueue (drainProcessed rs s)) t =
   deque_at (pendingQueue s) t @
   filter (\<lambda>r. CurrentTreelet r = t \<and> t \<notin> treeletIds s \<and> treeletToWorker s t = None) rs"
proof (induction rs arbitrary: s)
  case Nil
  show ?case by simp
next
  case (Cons r rs)
  show ?case
    by (simp add: Cons.IH)
       (simp add: classifyProcessed_def pushRayQueue_def Let_def deque_at_def)
qed

lemma drain_outQueueSize:
  "outQueueSize (drainProcessed rs s) =
   outQueueSize s + of_nat (length (filter (\<lambda>r. CurrentTreelet r \<notin> treeletIds s \<and>
     treeletToWorker s (CurrentTreelet r) \<noteq> None) rs))"
proof (induction rs arbitrary: s)
  case Nil
  show ?case by simp
next
  case (Cons r rs)
  show ?case
    by (simp add: Cons.IH)
       (simp add: classifyProcessed_def pushRayQueue_def Let_def)
qed

lemma drain_pendingQueueSize:
  "pendingQueueSize (drainProcessed rs s) =
   pendingQueueSize s + of_nat (length (filter (\<lambda>r. CurrentTreelet r \<notin> treeletIds s \<and>
     treeletToWorker s (CurrentTreelet r) = None) rs))"
proof (induction rs arbitrary: s)
  case Nil
  show ?case by simp
next
  case (Cons r rs)
  show ?case
    by (simp add: Cons.IH)
       (simp add: classifyProcessed_def pushRayQueue_def Let_def)
qed

lemma drain_neededTreelets:
  "neededTreelets (drainProcessed rs s) =
   neededTreelets s \<union> CurrentTreelet ` {r \<in> set rs. CurrentTreelet r \<notin> treeletIds s \<and>
     treeletToWorker s (CurrentTreelet r) = None}"
proof (induction rs arbitrary: s)
  case Nil
  show ?case by simp
next
  case (Cons r rs)
  show ?case
    by (simp add: Cons.IH)
       (auto simp add: classifyProcessed_def pushRayQueue_def Let_def)
qed

text \<open>
  The trace loop of handleRayQueue returns when every ray it pops is valid (it can be
  traced, or it has hit and is shaded); it changes the finished queue and the list of
  finished paths only, and throws at the first invalid ray.
\<close>

lemma traceRays_frame:
  "traceRays tr rays processedRays s = Some (processedRays', s') \<Longrightarrow>
   \<exists>finished paths. s' = s\<lparr>finishedQueue := finished, finishedPathIds := paths\<rparr>"
proof (induction rays arbitrary: processedRays s)
  case Nil
  then have "s' = s\<lparr>finishedQueue := finishedQueue s, finishedPathIds := finishedPathIds s\<rparr>"
    by simp
  then show ?case by blast
next
  case (Cons ray rays)
  have step: "\<exists>processedRays1 finished1 paths1.
      traceRays tr rays processedRays1 (s\<lparr>finishedQueue := finished1, finishedPathIds := paths1\<rparr>) =
      Some (processedRays', s')"
  proof (cases "toVisitEmpty ray")
    case True
    with Cons.prems have h: "hit ray" by (auto split: if_splits)
    show ?thesis
    proof (cases "snd (Shade tr ray)")
      case True
      with \<open>toVisitEmpty ray\<close> h Cons.prems
      have "traceRays tr rays (processedRays @ fst (Shade tr ray))
          (s\<lparr>finishedQueue := finishedQueue s, finishedPathIds := finishedPathIds s @ [PathID ray]\<rparr>) =
          Some (processedRays', s')"
        by (simp add: Let_def recordFinishedPath_def)
      then show ?thesis by blast
    next
      case False
      with \<open>toVisitEmpty ray\<close> h Cons.prems
      have "traceRays tr rays (processedRays @ fst (Shade tr ray))
          (s\<lparr>finishedQueue := finishedQueue s, finishedPathIds := finishedPathIds s\<rparr>) =
          Some (processedRays', s')"
        by (simp add: Let_def)
      then show ?thesis by blast
    qed
  next
    case False
    let ?n = "Trace tr ray"
    consider
      (finishedShadow) "isShadowRay ?n" "hit ?n \<or> toVisitEmpty ?n"
      | (processedShadow) "isShadowRay ?n" "\<not> (hit ?n \<or> toVisitEmpty ?n)"
      | (processed) "\<not> isShadowRay ?n" "\<not> toVisitEmpty ?n \<or> hit ?n"
      | (finished) "\<not> isShadowRay ?n" "\<not> (\<not> toVisitEmpty ?n \<or> hit ?n)"
      by blast
    then show ?thesis
    proof cases
      case finishedShadow
      with False Cons.prems
      have "traceRays tr rays processedRays
          (s\<lparr>finishedQueue := finishedQueue s @ [?n\<lparr>Ld := (if hit ?n then 0 else Ld ?n)\<rparr>],
             finishedPathIds := finishedPathIds s\<rparr>) = Some (processedRays', s')"
        by (simp add: Let_def)
      then show ?thesis by blast
    next
      case processedShadow
      with False Cons.prems
      have "traceRays tr rays (processedRays @ [?n])
          (s\<lparr>finishedQueue := finishedQueue s, finishedPathIds := finishedPathIds s\<rparr>) =
          Some (processedRays', s')"
        by (simp add: Let_def)
      then show ?thesis by blast
    next
      case processed
      with False Cons.prems
      have "traceRays tr rays (processedRays @ [?n])
          (s\<lparr>finishedQueue := finishedQueue s, finishedPathIds := finishedPathIds s\<rparr>) =
          Some (processedRays', s')"
        by (simp add: Let_def)
      then show ?thesis by blast
    next
      case finished
      with False Cons.prems
      have "traceRays tr rays processedRays
          (s\<lparr>finishedQueue := finishedQueue s @ [?n\<lparr>Ld := 0\<rparr>],
             finishedPathIds := finishedPathIds s @ [PathID ray]\<rparr>) = Some (processedRays', s')"
        by (simp add: Let_def recordFinishedPath_def)
      then show ?thesis by blast
    qed
  qed
  then obtain processedRays1 finished1 paths1 where
    "traceRays tr rays processedRays1 (s\<lparr>finishedQueue := finished1, finishedPathIds := paths1\<rparr>) =
      Some (processedRays', s')"
    by blast
  from Cons.IH [OF this] show ?case by auto
qed

lemma traceRays_returns:
  "\<forall>ray\<in>set rays. \<not> toVisitEmpty ray \<or> hit ray \<Longrightarrow>
   traceRays tr rays processedRays s \<noteq> None"
  by (induction rays arbitrary: processedRays s) (auto simp add: Let_def)

lemma traceRays_throws:
  "\<exists>ray\<in>set rays. toVisitEmpty ray \<and> \<not> hit ray \<Longrightarrow> traceRays tr rays processedRays s = None"
proof (induction rays arbitrary: processedRays s)
  case Nil
  then show ?case by simp
next
  case (Cons ray rays)
  show ?case
  proof (cases "toVisitEmpty ray \<and> \<not> hit ray")
    case True
    then show ?thesis by simp
  next
    case False
    with Cons.prems have "\<exists>ray\<in>set rays. toVisitEmpty ray \<and> \<not> hit ray" by auto
    note ih = Cons.IH [OF this]
    from False show ?thesis by (auto simp add: Let_def ih)
  qed
qed

lemma classified_drain: "classified rays s (drainProcessed rays s)"
  unfolding classified_def
  using drain_rayQueue drain_outQueue drain_pendingQueue drain_outQueueSize
    drain_pendingQueueSize drain_neededTreelets
  by blast

text \<open>
  C4. The rays that leave processing in one activation are classified one by one, in
  order, by \<open>t = CurrentTreelet ray\<close>: a ray with \<open>t\<close> in \<open>treeletIds\<close> is appended to
  \<open>rayQueue\<close>; otherwise, if \<open>t\<close> has an entry in \<open>treeletToWorker\<close>, it is appended to
  \<open>outQueue[t]\<close> and \<open>outQueueSize\<close> grows by one; otherwise it is appended to
  \<open>pendingQueue[t]\<close>, \<open>pendingQueueSize\<close> grows by one and \<open>t\<close> is inserted into
  \<open>neededTreelets\<close> (the predicate \<open>classified\<close>, between the state before the
  classification and the state after). generateRays does this with the rays it
  generates. handleRayQueue, when every ray it pops from the ray queue is valid, returns,
  and does this with the rays its trace loop has buffered in \<open>processedRays\<close>, from the
  state the trace loop leaves: the worker's state with the rays popped and only the
  finished queue and the finished paths changed. With an invalid ray among those it pops,
  handleRayQueue throws.
\<close>

theorem ray_classification:
  "classified states s (generateRays states s) \<and>
   ((\<forall>ray\<in>set (take MAX_RAYS (rayQueue s0)). \<not> toVisitEmpty ray \<or> hit ray) \<longrightarrow>
    (\<exists>processedRays s1 s'.
       traceRays tr (take MAX_RAYS (rayQueue s0)) []
         (s0\<lparr>rayQueue := drop MAX_RAYS (rayQueue s0)\<rparr>) = Some (processedRays, s1) \<and>
       s1 = s0\<lparr>rayQueue := drop MAX_RAYS (rayQueue s0), finishedQueue := finishedQueue s1,
              finishedPathIds := finishedPathIds s1\<rparr> \<and>
       handleRayQueue tr s0 = Some s' \<and> classified processedRays s1 s')) \<and>
   ((\<exists>ray\<in>set (take MAX_RAYS (rayQueue s0)). toVisitEmpty ray \<and> \<not> hit ray) \<longrightarrow>
    handleRayQueue tr s0 = None)"
proof (intro conjI impI)
  show "classified states s (generateRays states s)"
    by (simp add: generateRays_eq classified_drain)
next
  assume "\<forall>ray\<in>set (take MAX_RAYS (rayQueue s0)). \<not> toVisitEmpty ray \<or> hit ray"
  from traceRays_returns [OF this, of tr "[]" "s0\<lparr>rayQueue := drop MAX_RAYS (rayQueue s0)\<rparr>"]
  obtain processedRays s1 where
    t: "traceRays tr (take MAX_RAYS (rayQueue s0)) []
          (s0\<lparr>rayQueue := drop MAX_RAYS (rayQueue s0)\<rparr>) = Some (processedRays, s1)"
    by auto
  from traceRays_frame [OF t]
  have s1: "s1 = s0\<lparr>rayQueue := drop MAX_RAYS (rayQueue s0), finishedQueue := finishedQueue s1,
              finishedPathIds := finishedPathIds s1\<rparr>"
    by auto
  have "handleRayQueue tr s0 = Some (drainProcessed processedRays s1)"
    by (simp add: handleRayQueue_def t)
  with t s1 classified_drain [of processedRays s1]
  show "\<exists>processedRays s1 s'.
       traceRays tr (take MAX_RAYS (rayQueue s0)) []
         (s0\<lparr>rayQueue := drop MAX_RAYS (rayQueue s0)\<rparr>) = Some (processedRays, s1) \<and>
       s1 = s0\<lparr>rayQueue := drop MAX_RAYS (rayQueue s0), finishedQueue := finishedQueue s1,
              finishedPathIds := finishedPathIds s1\<rparr> \<and>
       handleRayQueue tr s0 = Some s' \<and> classified processedRays s1 s'"
    by blast
next
  assume "\<exists>ray\<in>set (take MAX_RAYS (rayQueue s0)). toVisitEmpty ray \<and> \<not> hit ray"
  from traceRays_throws [OF this]
  show "handleRayQueue tr s0 = None"
    by (simp add: handleRayQueue_def)
qed

text \<open>
  The first end-to-end scenario of the specification: the worker owns treelet 0 and knows
  no peer; a generated ray in treelet 0 goes to the ray queue and a ray in treelet 1 to
  \<open>pendingQueue[1]\<close>, with \<open>pendingQueueSize = 1\<close> and \<open>neededTreelets = {1}\<close>. And three rays
  that handleRayQueue traces out of treelet 0: the one that stays goes back to the ray
  queue, the one that enters treelet 1, which peer 2 owns, to \<open>outQueue[1]\<close>, and the one
  that enters treelet 2, whose owner is not known, to \<open>pendingQueue[2]\<close>.
\<close>

theorem ray_classification_witness:
  "classified [exampleRay 0 0 [], exampleRay 1 1 []] (exampleWorker\<lparr>treeletIds := {0}\<rparr>)
     (generateRays [exampleRay 0 0 [], exampleRay 1 1 []] (exampleWorker\<lparr>treeletIds := {0}\<rparr>)) \<and>
   rayQueue (generateRays [exampleRay 0 0 [], exampleRay 1 1 []] (exampleWorker\<lparr>treeletIds := {0}\<rparr>))
     = [exampleRay 0 0 []] \<and>
   deque_at (pendingQueue (generateRays [exampleRay 0 0 [], exampleRay 1 1 []]
     (exampleWorker\<lparr>treeletIds := {0}\<rparr>))) 1 = [exampleRay 1 1 []] \<and>
   pendingQueueSize (generateRays [exampleRay 0 0 [], exampleRay 1 1 []]
     (exampleWorker\<lparr>treeletIds := {0}\<rparr>)) = 1 \<and>
   neededTreelets (generateRays [exampleRay 0 0 [], exampleRay 1 1 []]
     (exampleWorker\<lparr>treeletIds := {0}\<rparr>)) = {1} \<and>
   (\<exists>s'. handleRayQueue movingTracer tracingExample = Some s' \<and>
      classified [exampleRay 0 0 [], exampleRay 1 1 [], exampleRay 2 2 []]
        (tracingExample\<lparr>rayQueue := []\<rparr>) s' \<and>
      rayQueue s' = [exampleRay 0 0 []] \<and>
      outQueue s' = [(1, [exampleRay 1 1 []])] \<and> outQueueSize s' = 1 \<and>
      deque_at (pendingQueue s') 2 = [exampleRay 2 2 []] \<and> pendingQueueSize s' = 1 \<and>
      neededTreelets s' = {2})"
proof -
  note c = ray_classification [of "[exampleRay 0 0 [], exampleRay 1 1 []]"
      "exampleWorker\<lparr>treeletIds := {0}\<rparr>" tracingExample movingTracer]
  have valid: "\<forall>ray\<in>set (take MAX_RAYS (rayQueue tracingExample)). \<not> toVisitEmpty ray \<or> hit ray"
    by (simp add: tracingExample_def exampleRay_def MAX_RAYS_def)
  have trace: "traceRays movingTracer (take MAX_RAYS (rayQueue tracingExample)) []
      (tracingExample\<lparr>rayQueue := drop MAX_RAYS (rayQueue tracingExample)\<rparr>) =
      Some ([exampleRay 0 0 [], exampleRay 1 1 [], exampleRay 2 2 []], tracingExample\<lparr>rayQueue := []\<rparr>)"
    by (simp add: tracingExample_def exampleRay_def movingTracer_def MAX_RAYS_def Let_def)
  from c valid obtain s' where
    h: "handleRayQueue movingTracer tracingExample = Some s'" and
    cl: "classified [exampleRay 0 0 [], exampleRay 1 1 [], exampleRay 2 2 []]
        (tracingExample\<lparr>rayQueue := []\<rparr>) s'"
    unfolding trace by blast
  from h have s': "s' = drainProcessed [exampleRay 0 0 [], exampleRay 1 1 [], exampleRay 2 2 []]
      (tracingExample\<lparr>rayQueue := []\<rparr>)"
    by (simp add: handleRayQueue_def trace)
  have "rayQueue s' = [exampleRay 0 0 []] \<and>
      outQueue s' = [(1, [exampleRay 1 1 []])] \<and> outQueueSize s' = 1 \<and>
      deque_at (pendingQueue s') 2 = [exampleRay 2 2 []] \<and> pendingQueueSize s' = 1 \<and>
      neededTreelets s' = {2}"
    unfolding s'
    by (simp add: exampleWorker_def initialWorker_def exampleRay_def deque_at_def
        classifyProcessed_def pushRayQueue_def tracingExample_def Let_def)
  with h cl have traced: "\<exists>s'. handleRayQueue movingTracer tracingExample = Some s' \<and>
      classified [exampleRay 0 0 [], exampleRay 1 1 [], exampleRay 2 2 []]
        (tracingExample\<lparr>rayQueue := []\<rparr>) s' \<and>
      rayQueue s' = [exampleRay 0 0 []] \<and>
      outQueue s' = [(1, [exampleRay 1 1 []])] \<and> outQueueSize s' = 1 \<and>
      deque_at (pendingQueue s') 2 = [exampleRay 2 2 []] \<and> pendingQueueSize s' = 1 \<and>
      neededTreelets s' = {2}"
    by blast
  have generated: "rayQueue (generateRays [exampleRay 0 0 [], exampleRay 1 1 []]
        (exampleWorker\<lparr>treeletIds := {0}\<rparr>)) = [exampleRay 0 0 []] \<and>
      deque_at (pendingQueue (generateRays [exampleRay 0 0 [], exampleRay 1 1 []]
        (exampleWorker\<lparr>treeletIds := {0}\<rparr>))) 1 = [exampleRay 1 1 []] \<and>
      pendingQueueSize (generateRays [exampleRay 0 0 [], exampleRay 1 1 []]
        (exampleWorker\<lparr>treeletIds := {0}\<rparr>)) = 1 \<and>
      neededTreelets (generateRays [exampleRay 0 0 [], exampleRay 1 1 []]
        (exampleWorker\<lparr>treeletIds := {0}\<rparr>)) = {1}"
    by (simp add: exampleWorker_def initialWorker_def exampleRay_def deque_at_def
        classifyGenerated_def pushRayQueue_def)
  from c generated traced show ?thesis by blast
qed

subsection \<open>Sending\<close>

lemma findServicePacket_Some:
  "\<forall>x\<in>set pre. iface x \<noteq> ifc \<Longrightarrow> iface d = ifc \<Longrightarrow>
   findServicePacket ifc (pre @ d # post) = Some (d, pre @ post)"
  by (induction pre) simp_all

lemma findServicePacket_None:
  "\<forall>x\<in>set packets. iface x \<noteq> ifc \<Longrightarrow> findServicePacket ifc packets = None"
  by (induction packets) simp_all

lemma findServicePacket_iface:
  "findServicePacket ifc packets = Some (d, rest) \<Longrightarrow> iface d = ifc"
  by (induction packets arbitrary: rest) (auto split: if_splits)

text \<open>
  C8. An activation of handleUdpSend on interface 0 or 1 returns and sends at most one
  datagram. If a service packet for the interface is queued, the first one is sent and
  removed, and nothing else changes (no ray packet is sent). If none is queued and the
  interface is not 0 or no ray packet is queued, nothing happens (so no ray packet ever
  leaves on interface 1). Otherwise the front ray packet is sent on interface 0 and
  popped, and when it is reliable \<open>(now + PACKET_TIMEOUT, packet)\<close> is appended to
  \<open>outstandingRayPackets\<close> (the packet with the ticks of its tracked rays advanced).
\<close>

theorem handleUdpSend_one_packet:
  assumes "ifc < 2"
  shows "\<exists>s'. handleUdpSend ifc now s = Some s' \<and>
    length (udpSent s') \<le> length (udpSent s) + 1 \<and>
    (\<forall>pre d post.
       servicePackets s = pre @ d # post \<and> (\<forall>x\<in>set pre. iface x \<noteq> ifc) \<and> iface d = ifc \<longrightarrow>
       s' = s\<lparr>udpSent := udpSent s @ [(ifc, service_destination d, service_data d)],
              servicePackets := pre @ post\<rparr>) \<and>
    ((\<forall>x\<in>set (servicePackets s). iface x \<noteq> ifc) \<and> (ifc \<noteq> 0 \<or> rayPackets s = []) \<longrightarrow> s' = s) \<and>
    (\<forall>packet packets.
       (\<forall>x\<in>set (servicePackets s). iface x \<noteq> ifc) \<and> ifc = 0 \<and> rayPackets s = packet # packets \<longrightarrow>
       s' = s\<lparr>udpSent := udpSent s @ [(0, destination packet, data packet)],
              outstandingRayPackets :=
                (if packet_reliable packet then
                   outstandingRayPackets s @
                   [(now + PACKET_TIMEOUT,
                     packet\<lparr>trackedRays := map (\<lambda>ray. ray\<lparr>tick := tick ray + 1\<rparr>) (trackedRays packet)\<rparr>)]
                 else outstandingRayPackets s),
              rayPackets := packets\<rparr>)"
    (is "\<exists>s'. ?R s' \<and> ?L s' \<and> ?A s' \<and> ?B s' \<and> ?C s'")
proof (cases "findServicePacket ifc (servicePackets s)")
  case None
  have none: "\<forall>pre d post. \<not> (servicePackets s = pre @ d # post \<and> (\<forall>x\<in>set pre. iface x \<noteq> ifc) \<and> iface d = ifc)"
    using None findServicePacket_Some by fastforce
  have a: "?A s'" for s' using none by blast
  show ?thesis
  proof (cases "rayPackets s")
    case Nil
    have r: "?R s"
      using None Nil by (simp add: handleUdpSend_def)
    have "?L s" "?B s" "?C s" using Nil by simp_all
    with r a show ?thesis by blast
  next
    case (Cons packet packets)
    show ?thesis
    proof (cases "ifc = 0")
      case True
      define s' where "s' = s\<lparr>udpSent := udpSent s @ [(0, destination packet, data packet)],
              outstandingRayPackets :=
                (if packet_reliable packet then
                   outstandingRayPackets s @
                   [(now + PACKET_TIMEOUT,
                     packet\<lparr>trackedRays := map (\<lambda>ray. ray\<lparr>tick := tick ray + 1\<rparr>) (trackedRays packet)\<rparr>)]
                 else outstandingRayPackets s),
              rayPackets := packets\<rparr>"
      have r: "?R s'"
        using None Cons True by (simp add: handleUdpSend_def sendUdpPacket_def Let_def s'_def)
      have l: "?L s'" by (simp add: s'_def)
      have b: "?B s'" using Cons True by simp
      have c: "?C s'" using Cons by (simp add: s'_def)
      from r l a b c show ?thesis by blast
    next
      case False
      have r: "?R s"
        using None Cons False by (simp add: handleUdpSend_def)
      have "?L s" "?B s" "?C s" using False by simp_all
      with r a show ?thesis by blast
    qed
  qed
next
  case (Some a)
  obtain d rest where a: "a = (d, rest)" by (cases a)
  have ifc: "iface d = ifc" using Some a findServicePacket_iface by blast
  have some: "\<not> (\<forall>x\<in>set (servicePackets s). iface x \<noteq> ifc)"
    using Some findServicePacket_None by fastforce
  have dec: "rest = pre @ post \<and> d = d'"
    if "servicePackets s = pre @ d' # post \<and> (\<forall>x\<in>set pre. iface x \<noteq> ifc) \<and> iface d' = ifc"
    for pre d' post
    using findServicePacket_Some [of pre ifc d' post] Some a that by simp
  define s' where "s' = s\<lparr>udpSent := udpSent s @ [(ifc, service_destination d, service_data d)],
              servicePackets := rest\<rparr>"
  have r: "?R s'"
    using Some a ifc assms by (simp add: handleUdpSend_def sendUdpPacket_def s'_def)
  have l: "?L s'" by (simp add: s'_def)
  have "?A s'" using dec by (auto simp add: s'_def)
  moreover have "?B s'" "?C s'" using some by blast+
  ultimately show ?thesis using r l by blast
qed

text \<open>
  With a service packet for interface 1 and a reliable ray packet queued: interface 0
  sends the ray packet and records it as outstanding; interface 1 sends the service
  packet and leaves the ray packet queued.
\<close>

theorem handleUdpSend_one_packet_witness:
  "map_option udpSent (handleUdpSend 0 5
      (exampleWorker\<lparr>servicePackets := [exampleServicePacket 8 1],
                      rayPackets := [examplePacket 9 3 True]\<rparr>)) =
     Some [(0, 9, data (examplePacket 9 3 True))] \<and>
   map_option outstandingRayPackets (handleUdpSend 0 5
      (exampleWorker\<lparr>servicePackets := [exampleServicePacket 8 1],
                      rayPackets := [examplePacket 9 3 True]\<rparr>)) =
     Some [(5 + PACKET_TIMEOUT, examplePacket 9 3 True)] \<and>
   map_option udpSent (handleUdpSend 1 5
      (exampleWorker\<lparr>servicePackets := [exampleServicePacket 8 1],
                      rayPackets := [examplePacket 9 3 True]\<rparr>)) =
     Some [(1, 8, service_data (exampleServicePacket 8 1))] \<and>
   map_option rayPackets (handleUdpSend 1 5
      (exampleWorker\<lparr>servicePackets := [exampleServicePacket 8 1],
                      rayPackets := [examplePacket 9 3 True]\<rparr>)) =
     Some [examplePacket 9 3 True]"
  using handleUdpSend_one_packet [of 0 5 "exampleWorker\<lparr>servicePackets := [exampleServicePacket 8 1],
      rayPackets := [examplePacket 9 3 True]\<rparr>"]
    handleUdpSend_one_packet [of 1 5 "exampleWorker\<lparr>servicePackets := [exampleServicePacket 8 1],
      rayPackets := [examplePacket 9 3 True]\<rparr>"]
  by (simp add: handleUdpSend_def sendUdpPacket_def exampleWorker_def initialWorker_def
      exampleServicePacket_def examplePacket_def ServicePacket_ctor_def)

subsection \<open>Acknowledgements and retransmission\<close>

lemma sendAcksTo_total:
  "\<exists>r. sendAcksTo (Some w) rnd addr destId received ack st = Some r"
proof (induction received arbitrary: ack st)
  case Nil
  show ?case by (cases st) simp
next
  case (Cons r received)
  obtain a p sp where st: "st = (a, p, sp)" by (cases st)
  show ?case using Cons.IH by (simp add: st Let_def)
qed

lemma sendAcks_shape:
  "sendAcks acks s = Some s' \<Longrightarrow>
   \<exists>a i p sp. s' = s\<lparr>addressToWorker := a, ackId := i, randPos := p, servicePackets := sp\<rparr>"
proof (induction acks arbitrary: s)
  case Nil
  then have "s' = s\<lparr>addressToWorker := addressToWorker s, ackId := ackId s,
      randPos := randPos s, servicePackets := servicePackets s\<rparr>" by simp
  then show ?case by blast
next
  case (Cons x acks)
  obtain addr received where x: "x = (addr, received)" by (cases x)
  from Cons.prems obtain aId pos packets where
    s': "sendAcks acks (s\<lparr>addressToWorker := emplace (addressToWorker s) addr 0, ackId := aId,
            randPos := pos, servicePackets := packets\<rparr>) = Some s'"
    by (auto simp add: x Let_def split: option.splits)
  from Cons.IH [OF s'] show ?case by auto
qed

lemma sendAcks_total:
  "workerId s = Some w \<Longrightarrow> \<exists>s'. sendAcks acks s = Some s'"
proof (induction acks arbitrary: s)
  case Nil
  show ?case by simp
next
  case (Cons x acks)
  obtain addr received where x: "x = (addr, received)" by (cases x)
  obtain r where r: "sendAcksTo (Some w) (randEngine s) addr
      (case emplace (addressToWorker s) addr 0 addr of None \<Rightarrow> 0 | Some w \<Rightarrow> w) received []
      (ackId s, randPos s, servicePackets s) = Some r"
    using sendAcksTo_total by blast
  obtain a p sp where rr: "r = (a, p, sp)" by (cases r)
  show ?case using Cons.IH [of "s\<lparr>addressToWorker := emplace (addressToWorker s) addr 0, ackId := a,
            randPos := p, servicePackets := sp\<rparr>"] Cons.prems r rr
    by (simp add: x Let_def)
qed

lemma set_at_update_self:
  "set_at (map_of (map_put k (set_at (map_of al) k) al)) a = set_at (map_of al) a"
  by (simp add: map_of_map_put set_at_def)

lemma retransmit_none:
  "receivedAcks s = [] \<Longrightarrow> retransmit now outstanding s = s\<lparr>outstandingRayPackets := outstanding\<rparr>"
  by (cases outstanding) auto

lemma retransmit_some:
  "receivedAcks s \<noteq> [] \<Longrightarrow>
   rayPackets (retransmit now outstanding s) =
     rayPackets s @
     map (\<lambda>(deadline, packet). (incrementAttempts packet)\<lparr>retransmission := True\<rparr>)
       (filter (\<lambda>(deadline, packet).
            sequenceNumber packet \<notin> set_at (map_of (receivedAcks s)) (destination packet))
          (takeWhile (\<lambda>(deadline, packet). deadline \<le> now) outstanding)) \<and>
   outstandingRayPackets (retransmit now outstanding s) =
     dropWhile (\<lambda>(deadline, packet). deadline \<le> now) outstanding"
proof (induction outstanding arbitrary: s)
  case Nil
  show ?case by simp
next
  case (Cons x outstanding)
  obtain deadline packet where x: "x = (deadline, packet)" by (cases x)
  show ?case
  proof (cases "deadline \<le> now")
    case True
    let ?s1 = "s\<lparr>receivedAcks := map_put (destination packet)
        (set_at (map_of (receivedAcks s)) (destination packet)) (receivedAcks s)\<rparr>"
    let ?s2 = "if sequenceNumber packet \<notin> set_at (map_of (receivedAcks s)) (destination packet)
      then ?s1\<lparr>rayPackets := rayPackets ?s1 @ [(incrementAttempts packet)\<lparr>retransmission := True\<rparr>]\<rparr>
      else ?s1"
    have ne: "receivedAcks ?s2 \<noteq> []" by simp
    have acks: "set_at (map_of (receivedAcks ?s2)) a = set_at (map_of (receivedAcks s)) a" for a
      by (simp add: set_at_update_self)
    have step: "retransmit now (x # outstanding) s = retransmit now outstanding ?s2"
      using True Cons.prems by (simp add: x Let_def)
    show ?thesis
      unfolding step using Cons.IH [OF ne] True
      by (simp add: x acks)
  next
    case False
    then show ?thesis using Cons.prems by (simp add: x)
  qed
qed

text \<open>
  C1, as amended. With \<open>workerId\<close> set, handleRayAcknowledgements returns. When
  \<open>receivedAcks\<close> holds no entry at all, nothing is re-queued and
  \<open>outstandingRayPackets\<close> is left as it is. When \<open>receivedAcks\<close> holds an entry (an ack
  from any source), the entries at the front of \<open>outstandingRayPackets\<close> whose deadline is
  \<open>\<le> now\<close> are all popped, and each of them whose sequence number is not in
  \<open>receivedAcks[packet.destination]\<close> is pushed onto \<open>rayPackets\<close> with its attempt count
  incremented and its retransmission flag set; the set of the destination may be empty.
\<close>

theorem retransmission_gate:
  assumes "workerId s = Some w"
  shows "\<exists>s'. handleRayAcknowledgements now s = Some s' \<and>
    (receivedAcks s = [] \<longrightarrow>
       rayPackets s' = rayPackets s \<and> outstandingRayPackets s' = outstandingRayPackets s) \<and>
    (receivedAcks s \<noteq> [] \<longrightarrow>
       rayPackets s' =
         rayPackets s @
         map (\<lambda>(deadline, packet). (incrementAttempts packet)\<lparr>retransmission := True\<rparr>)
           (filter (\<lambda>(deadline, packet).
                sequenceNumber packet \<notin> set_at (map_of (receivedAcks s)) (destination packet))
              (takeWhile (\<lambda>(deadline, packet). deadline \<le> now) (outstandingRayPackets s))) \<and>
       outstandingRayPackets s' =
         dropWhile (\<lambda>(deadline, packet). deadline \<le> now) (outstandingRayPackets s))"
proof -
  obtain s1 where s1: "sendAcks (toBeAcked s) s = Some s1"
    using sendAcks_total [OF assms] by blast
  from sendAcks_shape [OF s1] obtain a i p sp where
    shape: "s1 = s\<lparr>addressToWorker := a, ackId := i, randPos := p, servicePackets := sp\<rparr>"
    by blast
  let ?s2 = "s1\<lparr>toBeAcked := []\<rparr>"
  have h: "handleRayAcknowledgements now s = Some (retransmit now (outstandingRayPackets s) ?s2)"
    by (simp add: handleRayAcknowledgements_def s1) (simp add: shape)
  have f: "receivedAcks ?s2 = receivedAcks s" "rayPackets ?s2 = rayPackets s"
    by (simp_all add: shape)
  show ?thesis
  proof (cases "receivedAcks s = []")
    case True
    then show ?thesis using h f by (simp add: retransmit_none)
  next
    case False
    then have "receivedAcks ?s2 \<noteq> []" using f by simp
    from retransmit_some [OF this, of now "outstandingRayPackets s"] False h f
    show ?thesis by simp
  qed
qed

text \<open>
  The property as the specification states it fails: address 9 has never acked anything,
  address 8 has, and the timed-out packet for address 9 is re-queued.
\<close>

theorem retransmission_gate_counterexample:
  "map_of (receivedAcks retransmitExample) 9 = None \<and>
   map_option rayPackets (handleRayAcknowledgements 2000 retransmitExample) =
     Some [(examplePacket 9 1 True)\<lparr>packet_attempt := 1, retransmission := True\<rparr>]"
  by (simp add: retransmitExample_def exampleWorker_def initialWorker_def
      handleRayAcknowledgements_def examplePacket_def set_at_def incrementAttempts_def)

theorem retransmission_gate_witness:
  "map_option outstandingRayPackets (handleRayAcknowledgements 2000 retransmitExample) = Some [] \<and>
   map_option rayPackets
     (handleRayAcknowledgements 2000 (retransmitExample\<lparr>receivedAcks := []\<rparr>)) = Some [] \<and>
   map_option outstandingRayPackets
     (handleRayAcknowledgements 2000 (retransmitExample\<lparr>receivedAcks := []\<rparr>)) =
     Some [(0, examplePacket 9 1 True)]"
  using retransmission_gate [of retransmitExample 1 2000]
    retransmission_gate [of "retransmitExample\<lparr>receivedAcks := []\<rparr>" 1 2000]
  by (simp add: retransmitExample_def exampleWorker_def initialWorker_def
      handleRayAcknowledgements_def examplePacket_def set_at_def incrementAttempts_def)

subsection \<open>Receiving\<close>

lemma receiveFrame_refl: "receiveFrame s s"
proof -
  have "s = s\<lparr>toBeAcked := toBeAcked s, receivedPacketSeqNos := receivedPacketSeqNos s,
      receivedAcks := receivedAcks s\<rparr>" by simp
  then show ?thesis unfolding receiveFrame_def by blast
qed

lemma receiveFrame_trans:
  assumes "receiveFrame s s1" "receiveFrame s1 s2"
  shows "receiveFrame s s2"
proof -
  from assms obtain t r a t' r' a' where
    s1: "s1 = s\<lparr>toBeAcked := t, receivedPacketSeqNos := r, receivedAcks := a\<rparr>" and
    s2: "s2 = s1\<lparr>toBeAcked := t', receivedPacketSeqNos := r', receivedAcks := a'\<rparr>"
    unfolding receiveFrame_def by blast
  have "s2 = s\<lparr>toBeAcked := t', receivedPacketSeqNos := r', receivedAcks := a'\<rparr>"
    by (simp add: s1 s2)
  moreover have "\<forall>x. set_at (receivedPacketSeqNos s) x \<subseteq> set_at (receivedPacketSeqNos s2) x"
    using assms unfolding receiveFrame_def by blast
  ultimately show ?thesis unfolding receiveFrame_def by blast
qed

lemma receiveFrame_noteToBeAcked: "receiveFrame s (noteToBeAcked src it s)"
proof -
  have "noteToBeAcked src it s = s\<lparr>toBeAcked := toBeAcked (noteToBeAcked src it s),
      receivedPacketSeqNos := receivedPacketSeqNos s, receivedAcks := receivedAcks s\<rparr>"
    by (simp add: noteToBeAcked_def)
  moreover have "receivedPacketSeqNos (noteToBeAcked src it s) = receivedPacketSeqNos s"
    by (simp add: noteToBeAcked_def)
  ultimately show ?thesis unfolding receiveFrame_def by (metis subset_refl)
qed

lemma receiveFrame_noteReceived: "receiveFrame s (noteReceived src seqNo s)"
proof -
  have "noteReceived src seqNo s = s\<lparr>toBeAcked := toBeAcked s,
      receivedPacketSeqNos := receivedPacketSeqNos (noteReceived src seqNo s),
      receivedAcks := receivedAcks s\<rparr>"
    by (simp add: noteReceived_def)
  moreover have "set_at (receivedPacketSeqNos s) x \<subseteq>
      set_at (receivedPacketSeqNos (noteReceived src seqNo s)) x" for x
    by (auto simp add: noteReceived_def set_at_def)
  ultimately show ?thesis unfolding receiveFrame_def by blast
qed

lemma receiveFrame_noteAcks: "receiveFrame s (noteAcks src seqNos s)"
proof -
  have "noteAcks src seqNos s = s\<lparr>toBeAcked := toBeAcked s,
      receivedPacketSeqNos := receivedPacketSeqNos s,
      receivedAcks := receivedAcks (noteAcks src seqNos s)\<rparr>"
    by (simp add: noteAcks_def)
  moreover have "receivedPacketSeqNos (noteAcks src seqNos s) = receivedPacketSeqNos s"
    by (simp add: noteAcks_def)
  ultimately show ?thesis unfolding receiveFrame_def by (metis subset_refl)
qed

lemma receiveFrame_acknowledge:
  "acknowledge src it s = (dup, s1) \<Longrightarrow> receiveFrame s s1"
  unfolding acknowledge_def Let_def
  by (auto split: if_splits
      intro: receiveFrame_refl receiveFrame_noteToBeAcked
        receiveFrame_trans [OF receiveFrame_noteToBeAcked receiveFrame_noteReceived])

lemma receiveWalk_frame:
  "receiveWalk src ms s = Some (kept, s') \<Longrightarrow> receiveFrame s s'"
proof (induction ms arbitrary: s kept)
  case Nil
  then show ?case by (simp add: receiveFrame_refl)
next
  case (Cons m older)
  show ?case
  proof (cases "is_read m")
    case True
    with Cons.prems show ?thesis by (simp add: receiveFrame_refl)
  next
    case False
    obtain dup s1 where ack: "acknowledge src (m\<lparr>is_read := True\<rparr>) s = (dup, s1)"
      by (cases "acknowledge src (m\<lparr>is_read := True\<rparr>) s")
    note f1 = receiveFrame_acknowledge [OF ack]
    show ?thesis
    proof (cases dup)
      case True
      with Cons.prems False ack have "receiveWalk src older s1 = Some (kept, s')"
        by (simp add: Let_def)
      from Cons.IH [OF this] f1 show ?thesis by (rule receiveFrame_trans [rotated])
    next
      case nd: False
      show ?thesis
      proof (cases "opcode m = Ack")
        case True
        with Cons.prems False ack nd obtain chunk seqNos where
          "receiveWalk src older (noteAcks src seqNos s1) = Some (kept, s')"
          by (auto simp add: Let_def split: Payload.splits option.splits)
        from Cons.IH [OF this] have "receiveFrame (noteAcks src seqNos s1) s'" .
        with receiveFrame_noteAcks have "receiveFrame s1 s'" by (rule receiveFrame_trans)
        with f1 show ?thesis by (rule receiveFrame_trans)
      next
        case na: False
        with Cons.prems False ack nd obtain kept0 where
          "receiveWalk src older s1 = Some (kept0, s')"
          by (auto simp add: Let_def)
        from Cons.IH [OF this] f1 show ?thesis by (rule receiveFrame_trans [rotated])
      qed
    qed
  qed
qed

lemma receiveWalk_stop:
  "ms = [] \<or> is_read (hd ms) \<Longrightarrow> receiveWalk src ms s = Some (ms, s)"
  by (cases ms) auto

lemma noteToBeAcked_read [simp]:
  "noteToBeAcked src (m\<lparr>is_read := b\<rparr>) s = noteToBeAcked src m s"
  by (simp add: noteToBeAcked_def)




lemma receiveWalk_duplicate:
  assumes "\<not> is_read m" and "reliable m"
    and "sequence_number m \<in> set_at (receivedPacketSeqNos s) src"
  shows "receiveWalk src (m # older) s = receiveWalk src older (noteToBeAcked src m s)"
proof -
  have "acknowledge src (m\<lparr>is_read := True\<rparr>) s = (True, noteToBeAcked src m s)"
    using assms(2,3) by (simp add: acknowledge_def Let_def) (simp add: noteToBeAcked_def)
  with assms(1) show ?thesis by simp
qed

text \<open>
  A duplicate that arrives as a datagram of its own is noted and erased, and the walk
  goes on into the messages that were queued before it.
\<close>

lemma handleUdpReceive_duplicate_walk:
  assumes "reliable m" and "sequence_number m \<in> set_at (receivedPacketSeqNos s) src"
  shows "handleUdpReceive (src, [m]) s =
    map_option (\<lambda>(kept, s'). s'\<lparr>messageParser := rev kept\<rparr>)
      (receiveWalk src (rev (messageParser s)) (noteToBeAcked src m s))"
proof -
  have ack: "acknowledge src (m\<lparr>is_read := True\<rparr>) s = (True, noteToBeAcked src m s)"
    using assms by (simp add: acknowledge_def Let_def) (simp add: noteToBeAcked_def)
  show ?thesis
    by (simp add: handleUdpReceive_def ack)
qed









text \<open>
  The worker reaches \<open>waitingExample\<close>: it receives the datagram of address 20, and then
  the coordinator's connection pushes a message.
\<close>

lemma waitingExample_reachable: "reachable waitingExample"
proof -
  have r0: "reachable (initialWorker 7 100 True (\<lambda>n. 0))"
    by (rule reachable.constructed) simp
  have h: "handleUdpReceive (20, [exampleMessage 5]) (initialWorker 7 100 True (\<lambda>n. 0)) =
      Some ((initialWorker 7 100 True (\<lambda>n. 0))
       \<lparr>toBeAcked := [(20, [(5, False, 0)])], receivedPacketSeqNos := [20 \<mapsto> {5}],
        messageParser := [(exampleMessage 5)\<lparr>is_read := True\<rparr>]\<rparr>)"
    by (simp add: handleUdpReceive_def acknowledge_def noteToBeAcked_def noteReceived_def
      set_at_def deque_at_def exampleMessage_def Message_ctor_def initialWorker_def Let_def)
  from reachable.tcp_data [OF reachable.udp_receive [OF r0 h], of "[waitingMessage]"]
  show ?thesis by (simp add: waitingExample_def)
qed

lemma waitingExample_duplicate:
  "handleUdpReceive (20, [exampleMessage 5]) waitingExample =
   Some ((noteToBeAcked 20 waitingMessage (noteToBeAcked 20 (exampleMessage 5) waitingExample))
           \<lparr>messageParser := [(exampleMessage 5)\<lparr>is_read := True\<rparr>]\<rparr>)"
proof -
  let ?m = "exampleMessage 5"
  let ?s1 = "noteToBeAcked 20 ?m waitingExample"
  let ?s2 = "noteToBeAcked 20 waitingMessage ?s1"
  have received: "set_at (receivedPacketSeqNos waitingExample) 20 = {5}"
    "receivedPacketSeqNos ?s1 = receivedPacketSeqNos waitingExample"
    by (simp_all add: waitingExample_def set_at_def noteToBeAcked_def)
  have "handleUdpReceive (20, [?m]) waitingExample =
      map_option (\<lambda>(kept, s'). s'\<lparr>messageParser := rev kept\<rparr>)
        (receiveWalk 20 (rev (messageParser waitingExample)) ?s1)"
    by (rule handleUdpReceive_duplicate_walk)
      (simp_all add: received exampleMessage_def Message_ctor_def)
  also have "rev (messageParser waitingExample) = [waitingMessage, ?m\<lparr>is_read := True\<rparr>]"
    by (simp add: waitingExample_def)
  also have "receiveWalk 20 [waitingMessage, ?m\<lparr>is_read := True\<rparr>] ?s1 =
      receiveWalk 20 [?m\<lparr>is_read := True\<rparr>] ?s2"
    by (rule receiveWalk_duplicate)
      (simp_all add: received waitingMessage_def Message_ctor_def)
  also have "receiveWalk 20 [?m\<lparr>is_read := True\<rparr>] ?s2 = Some ([?m\<lparr>is_read := True\<rparr>], ?s2)"
    by (rule receiveWalk_stop) simp
  finally show ?thesis by simp
qed


text \<open>
  The property as the specification states it fails. The worker has received the
  reliable message 5 of address 20 and queued it; the coordinator's connection has then
  pushed a message, which waits unread. The datagram of address 20 arrives again: it is
  a duplicate, and yet the message queue changes, for the walk goes on into the waiting
  message, takes it for a message of address 20 with a sequence number already
  received, and erases it; \<open>toBeAcked[20]\<close> gets two entries more. (A waiting message that
  is not reliable would stay, with its read mark set.)
\<close>

theorem duplicate_suppression_counterexample:
  "reachable waitingExample \<and> reliable (exampleMessage 5) \<and>
   sequence_number (exampleMessage 5) \<in> set_at (receivedPacketSeqNos waitingExample) 20 \<and>
   messageParser waitingExample = [(exampleMessage 5)\<lparr>is_read := True\<rparr>, waitingMessage] \<and>
   map_option messageParser (handleUdpReceive (20, [exampleMessage 5]) waitingExample) =
     Some [(exampleMessage 5)\<lparr>is_read := True\<rparr>] \<and>
   toBeAcked waitingExample = [(20, [(5, False, 0)])] \<and>
   map_option toBeAcked (handleUdpReceive (20, [exampleMessage 5]) waitingExample) =
     Some [(20, [(5, False, 0), (5, False, 0), (5, False, 0)])]"
proof -
  have "toBeAcked (noteToBeAcked 20 waitingMessage
      (noteToBeAcked 20 (exampleMessage 5) waitingExample)) =
      [(20, [(5, False, 0), (5, False, 0), (5, False, 0)])]"
    by (simp add: noteToBeAcked_def waitingExample_def deque_at_def exampleMessage_def
        waitingMessage_def Message_ctor_def)
  moreover have "reliable (exampleMessage 5) \<and>
      sequence_number (exampleMessage 5) \<in> set_at (receivedPacketSeqNos waitingExample) 20 \<and>
      messageParser waitingExample = [(exampleMessage 5)\<lparr>is_read := True\<rparr>, waitingMessage] \<and>
      toBeAcked waitingExample = [(20, [(5, False, 0)])]"
    by (simp add: waitingExample_def exampleMessage_def Message_ctor_def set_at_def)
  ultimately show ?thesis
    using waitingExample_reachable by (simp add: waitingExample_duplicate)
qed


subsection \<open>The peer table\<close>

lemma peersOk_update:
  "peersOk ps \<Longrightarrow> (state p = Connected \<longrightarrow> connected p = (True, True)) \<Longrightarrow>
   peersOk (map_put k p ps)"
  using set_map_put_subset [of k p ps] unfolding peersOk_def by blast

lemma peersOk_lookup:
  "peersOk ps \<Longrightarrow> map_of ps k = Some p \<Longrightarrow> state p = Connected \<Longrightarrow> connected p = (True, True)"
  unfolding peersOk_def by (auto dest: map_of_SomeD)

lemma drainProcessed_peers [simp]: "peers (drainProcessed rs s) = peers s"
  by (induction rs arbitrary: s) (simp_all add: classifyProcessed_def pushRayQueue_def Let_def)

lemma generateRays_peers [simp]: "peers (generateRays rs s) = peers s"
  by (simp add: generateRays_eq)

lemma traceRays_peers:
  "traceRays tr rays processed s = Some (processed', s') \<Longrightarrow> peers s' = peers s"
proof (induction rays arbitrary: processed s)
  case Nil
  then show ?case by simp
next
  case (Cons ray rays)
  from Cons.prems obtain p0 s0 where
    "traceRays tr rays p0 s0 = Some (processed', s')" and "peers s0 = peers s"
    by (auto simp add: Let_def recordFinishedPath_def split: if_splits)
  with Cons.IH show ?case by metis
qed

lemma handleRayQueue_peers: "handleRayQueue tr s = Some s' \<Longrightarrow> peers s' = peers s"
  by (auto simp add: handleRayQueue_def split: option.splits dest!: traceRays_peers)

lemma handleOutQueueLoop_peers:
  "handleOutQueueLoop qs s = Some (qs', s') \<Longrightarrow> peers s' = peers s"
proof (induction qs arbitrary: s qs')
  case Nil
  then show ?case by simp
next
  case (Cons q qs)
  obtain treeletId outRays where q: "q = (treeletId, outRays)" by (cases q)
  from Cons.prems obtain s0 qs0 where
    "handleOutQueueLoop qs s0 = Some (qs0, s')" and "peers s0 = peers s"
    by (auto simp add: q Let_def split: if_splits option.splits)
  with Cons.IH show ?case by metis
qed

lemma handleOutQueue_peers: "handleOutQueue s = Some s' \<Longrightarrow> peers s' = peers s"
  by (auto simp add: handleOutQueue_def dest!: handleOutQueueLoop_peers)

lemma retransmit_peers [simp]: "peers (retransmit now outstanding s) = peers s"
proof (induction outstanding arbitrary: s)
  case Nil
  show ?case by simp
next
  case (Cons x outstanding)
  obtain deadline packet where x: "x = (deadline, packet)" by (cases x)
  show ?case by (simp add: x Let_def Cons.IH)
qed

lemma handleRayAcknowledgements_peers:
  "handleRayAcknowledgements now s = Some s' \<Longrightarrow> peers s' = peers s"
  by (auto simp add: handleRayAcknowledgements_def split: option.splits dest!: sendAcks_shape)

lemma handleUdpSend_peers: "handleUdpSend ifc now s = Some s' \<Longrightarrow> peers s' = peers s"
  by (auto simp add: handleUdpSend_def sendUdpPacket_def Let_def
      split: option.splits list.splits if_splits)

lemma handleUdpReceive_peers: "handleUdpReceive datagram s = Some s' \<Longrightarrow> peers s' = peers s"
  by (auto simp add: handleUdpReceive_def receiveFrame_def dest!: receiveWalk_frame)

lemma handlePeersLoop_ok:
  "handlePeersLoop now wid sd ps packets = Some (ps', packets') \<Longrightarrow> peersOk ps \<Longrightarrow> peersOk ps'"
proof (induction ps arbitrary: packets ps')
  case Nil
  then show ?case by simp
next
  case (Cons x ps)
  obtain peerId peer where x: "x = (peerId, peer)" by (cases x)
  from Cons.prems(2) have ok: "peersOk ps"
    and okp: "state peer = Connected \<longrightarrow> connected peer = (True, True)"
    by (auto simp add: peersOk_def x)
  from Cons.prems(1) obtain packets0 ps0 peer' where
    rec: "handlePeersLoop now wid sd ps packets0 = Some (ps0, packets')" and
    ps': "ps' = (peerId, peer') # ps0" and
    same: "state peer' = state peer" "connected peer' = connected peer"
    by (auto simp add: x Let_def split: State.splits option.splits if_splits)
  from Cons.IH [OF rec ok] have "peersOk ps0" .
  with okp same show ?case by (simp add: peersOk_def ps')
qed

lemma handlePeers_ok: "handlePeers now s = Some s' \<Longrightarrow> peersOk (peers s) \<Longrightarrow> peersOk (peers s')"
  by (auto simp add: handlePeers_def dest: handlePeersLoop_ok)

lemma announceTreelets_peers [simp]: "peers (announceTreelets w ids s) = peers s"
  by (induction ids arbitrary: s) (simp_all add: announceTreelet_def Let_def split: option.splits)

lemma receiveRays_peers [simp]: "peers (receiveRays rays s) = peers s"
  by (induction rays arbitrary: s) (simp_all add: pushRayQueue_def)

lemma Worker_ctor_ok: "state (Worker_ctor w) \<noteq> Connected"
  by (simp add: Worker_ctor_def)

lemma handleConnectTo_ok:
  "handleConnectTo proto s = Some s' \<Longrightarrow> peersOk (peers s) \<Longrightarrow> peersOk (peers s')"
  by (auto simp add: handleConnectTo_def Let_def Worker_ctor_def
      split: if_splits option.splits list.splits intro!: peersOk_update)

lemma handleConnectToAll_ok:
  "handleConnectToAll protos s = Some s' \<Longrightarrow> peersOk (peers s) \<Longrightarrow> peersOk (peers s')"
  by (induction protos arbitrary: s) (auto split: option.splits dest: handleConnectTo_ok)

lemma processHey_ok: "peersOk (peers s) \<Longrightarrow> peersOk (peers (processHey w s))"
  by (auto simp add: processHey_def Let_def Worker_ctor_def split: option.splits
      intro!: peersOk_update dest: peersOk_lookup)

lemma both_flags:
  "((if fst flags then 1 else 0) + (if snd flags then 1 else (0::nat)) = 2) = (flags = (True, True))"
  by (cases flags) auto

lemma processConnectionResponse_unknown:
  "map_of (peers s) (rs_worker_id proto) = None \<Longrightarrow>
   processConnectionResponse now proto s = Some (True, s)"
  by (simp add: processConnectionResponse_def)

lemma processConnectionResponse_ignored:
  "map_of (peers s) (rs_worker_id proto) = Some p \<Longrightarrow>
   state p = Connected \<or> rs_your_seed proto \<noteq> mySeed s \<Longrightarrow>
   processConnectionResponse now proto s =
     Some (True, s\<lparr>peers := map_put (rs_worker_id proto) (p\<lparr>seed := rs_my_seed proto\<rparr>) (peers s)\<rparr>)"
  by (auto simp add: processConnectionResponse_def Let_def)

lemma processConnectionResponse_out_of_range:
  "map_of (peers s) (rs_worker_id proto) = Some p \<Longrightarrow>
   state p \<noteq> Connected \<Longrightarrow> rs_your_seed proto = mySeed s \<Longrightarrow>
   set2 (connected p) (rs_address_no proto) True = None \<Longrightarrow>
   processConnectionResponse now proto s = None"
  by (simp add: processConnectionResponse_def Let_def)

lemma processConnectionResponse_one:
  "map_of (peers s) (rs_worker_id proto) = Some p \<Longrightarrow>
   state p \<noteq> Connected \<Longrightarrow> rs_your_seed proto = mySeed s \<Longrightarrow>
   set2 (connected p) (rs_address_no proto) True = Some flags \<Longrightarrow> flags \<noteq> (True, True) \<Longrightarrow>
   processConnectionResponse now proto s =
     Some (True, s\<lparr>peers := map_put (rs_worker_id proto)
        (p\<lparr>seed := rs_my_seed proto, connected := flags, state := Connecting\<rparr>) (peers s)\<rparr>)"
  by (simp add: processConnectionResponse_def Let_def both_flags)

lemma processConnectionResponse_both:
  "map_of (peers s) (rs_worker_id proto) = Some p \<Longrightarrow>
   state p \<noteq> Connected \<Longrightarrow> rs_your_seed proto = mySeed s \<Longrightarrow>
   set2 (connected p) (rs_address_no proto) True = Some (True, True) \<Longrightarrow>
   processConnectionResponse now proto s =
     Some (True, announceTreelets (rs_worker_id proto) (rs_treelet_ids proto)
        (s\<lparr>peers := map_put (rs_worker_id proto)
           (p\<lparr>seed := rs_my_seed proto, connected := (True, True), state := Connected,
              nextKeepAlive := now + KEEP_ALIVE_INTERVAL,
              treelets := treelets p \<union> set (rs_treelet_ids proto)\<rparr>) (peers s)\<rparr>))"
  by (simp add: processConnectionResponse_def Let_def both_flags)

lemma processConnectionResponse_ok:
  assumes "processConnectionResponse now proto s = Some (ok, s')" and "peersOk (peers s)"
  shows "peersOk (peers s')"
proof (cases "map_of (peers s) (rs_worker_id proto)")
  case None
  with assms show ?thesis by (simp add: processConnectionResponse_unknown)
next
  case (Some p)
  show ?thesis
  proof (cases "state p = Connected \<or> rs_your_seed proto \<noteq> mySeed s")
    case True
    have "state p = Connected \<longrightarrow> connected p = (True, True)"
      using peersOk_lookup [OF assms(2) Some] by blast
    then show ?thesis
      using assms processConnectionResponse_ignored [OF Some True, of now]
      by (auto intro!: peersOk_update)
  next
    case False
    then have nc: "state p \<noteq> Connected" and sd: "rs_your_seed proto = mySeed s" by auto
    show ?thesis
    proof (cases "set2 (connected p) (rs_address_no proto) True")
      case None
      with assms processConnectionResponse_out_of_range [OF Some nc sd None, of now]
      show ?thesis by simp
    next
      case (Some flags)
      note fl = this
      show ?thesis
      proof (cases "flags = (True, True)")
        case True
        with assms processConnectionResponse_both [OF \<open>map_of (peers s) (rs_worker_id proto) = Some p\<close> nc sd, of now] fl
        show ?thesis by (auto intro!: peersOk_update)
      next
        case False
        with assms processConnectionResponse_one [OF \<open>map_of (peers s) (rs_worker_id proto) = Some p\<close> nc sd fl False, of now]
        show ?thesis by (auto intro!: peersOk_update)
      qed
    qed
  qed
qed

lemma processMessage_ok:
  assumes "processMessage tr now message s = Some (ok, s')" and "peersOk (peers s)"
  shows "peersOk (peers s')"
proof (cases "opcode message")
  case Hey
  with assms show ?thesis
    by (auto simp add: processMessage_def split: Payload.splits dest: processHey_ok)
next
  case ConnectTo
  with assms show ?thesis
    by (auto simp add: processMessage_def split: Payload.splits dest: handleConnectTo_ok)
next
  case MultipleConnect
  with assms show ?thesis
    by (auto simp add: processMessage_def split: Payload.splits dest: handleConnectToAll_ok)
next
  case ConnectionRequest
  with assms show ?thesis
    by (auto simp add: processMessage_def processConnectionRequest_def Let_def
        split: Payload.splits option.splits)
next
  case ConnectionResponse
  with assms show ?thesis
    by (auto simp add: processMessage_def split: Payload.splits
        dest: processConnectionResponse_ok)
next
  case StartBenchmark
  with assms show ?thesis
    by (auto simp add: processMessage_def processStartBenchmark_def
        split: Payload.splits if_splits)
qed (use assms in \<open>auto simp add: processMessage_def split: Payload.splits\<close>)

lemma processMessages_ok:
  "processMessages tr now messages unprocessed s = Some s' \<Longrightarrow> peersOk (peers s) \<Longrightarrow>
   peersOk (peers s')"
proof (induction messages arbitrary: unprocessed s)
  case Nil
  then show ?case by auto
next
  case (Cons message messages)
  from Cons.prems(1) obtain ok s0 where
    pm: "processMessage tr now message s = Some (ok, s0)" and
    rec: "processMessages tr now messages
            (if ok then unprocessed else unprocessed @ [message]) s0 = Some s'"
    by (auto split: option.splits)
  from processMessage_ok [OF pm Cons.prems(2)] Cons.IH [OF rec] show ?case by blast
qed

lemma handleMessages_ok:
  "handleMessages tr now s = Some s' \<Longrightarrow> peersOk (peers s) \<Longrightarrow> peersOk (peers s')"
  unfolding handleMessages_def by (drule processMessages_ok) simp_all

lemma reachable_peersOk: "reachable s \<Longrightarrow> peersOk (peers s)"
proof (induction rule: reachable.induct)
  case (constructed sd coordinator reliably rnd)
  show ?case by (simp add: initialWorker_def peersOk_def)
next
  case (tcp_data s messages)
  then show ?case by simp
next
  case (udp_receive s datagram s')
  then show ?case by (simp add: handleUdpReceive_peers)
next
  case (ray_acks s now s')
  then show ?case by (simp add: handleRayAcknowledgements_peers)
next
  case (udp_send s ifc now s')
  then show ?case by (simp add: handleUdpSend_peers)
next
  case (ray_queue s tr s')
  then show ?case by (simp add: handleRayQueue_peers)
next
  case (out_queue s s')
  then show ?case by (simp add: handleOutQueue_peers)
next
  case (finished_queue s action)
  then show ?case by (cases action) (simp_all add: handleFinishedQueue_def)
next
  case (peers_timer s now s')
  then show ?case by (simp add: handlePeers_ok)
next
  case (messages s tr now s')
  then show ?case by (simp add: handleMessages_ok)
qed

lemma map_of_update_same: "map_of (map_put k v al) k = Some v"
  by (simp add: map_of_map_put)

text \<open>
  C6. In every reachable state, a peer whose state is \<open>Connected\<close> has \<open>connected[0]\<close> and
  \<open>connected[1]\<close> set. A \<open>ConnectionResponse\<close> with \<open>your_seed = mySeed\<close> for a known peer
  that is not yet connected, on interface 0 or 1, sets the flag of that interface and
  leaves the other flag as it is; the peer's state afterwards is \<open>Connected\<close> exactly when
  both flags are set, so from no flag set the state stays \<open>Connecting\<close>.
\<close>

theorem connected_needs_both_interfaces:
  "(reachable s \<longrightarrow>
      (\<forall>pid p. map_of (peers s) pid = Some p \<and> state p = Connected \<longrightarrow>
         connected p = (True, True))) \<and>
   (opcode message = ConnectionResponse \<and> payload message = ConnectResponse_payload proto \<and>
    map_of (peers s) (rs_worker_id proto) = Some p \<and> state p \<noteq> Connected \<and>
    rs_your_seed proto = mySeed s \<and> rs_address_no proto < 2 \<longrightarrow>
      (\<exists>s' p'. processMessage tr now message s = Some (True, s') \<and>
         map_of (peers s') (rs_worker_id proto) = Some p' \<and>
         at2 (connected p') (rs_address_no proto) = Some True \<and>
         at2 (connected p') (1 - rs_address_no proto) =
           at2 (connected p) (1 - rs_address_no proto) \<and>
         (state p' = Connected \<longleftrightarrow> connected p' = (True, True)) \<and>
         (connected p = (False, False) \<longrightarrow> state p' = Connecting)))"
  (is "?I \<and> ?R")
proof
  show ?I using reachable_peersOk peersOk_lookup by blast
next
  show ?R
  proof (intro impI, elim conjE)
    assume op: "opcode message = ConnectionResponse"
      and pl: "payload message = ConnectResponse_payload proto"
      and p: "map_of (peers s) (rs_worker_id proto) = Some p"
      and nc: "state p \<noteq> Connected"
      and sd: "rs_your_seed proto = mySeed s"
      and no: "rs_address_no proto < 2"
    have pm: "processMessage tr now message s = processConnectionResponse now proto s"
      by (simp add: processMessage_def op pl)
    have "set2 (connected p) (rs_address_no proto) True \<noteq> None"
      using no by (auto simp add: set2_def)
    then obtain flags where fl: "set2 (connected p) (rs_address_no proto) True = Some flags"
      by blast
    have marks: "at2 flags (rs_address_no proto) = Some True"
      "at2 flags (1 - rs_address_no proto) = at2 (connected p) (1 - rs_address_no proto)"
      using fl no by (auto simp add: set2_def at2_def split: if_splits)
    have one: "connected p = (False, False) \<longrightarrow> flags \<noteq> (True, True)"
      using fl by (auto simp add: set2_def split: if_splits)
    show "\<exists>s' p'. processMessage tr now message s = Some (True, s') \<and>
         map_of (peers s') (rs_worker_id proto) = Some p' \<and>
         at2 (connected p') (rs_address_no proto) = Some True \<and>
         at2 (connected p') (1 - rs_address_no proto) =
           at2 (connected p) (1 - rs_address_no proto) \<and>
         (state p' = Connected \<longleftrightarrow> connected p' = (True, True)) \<and>
         (connected p = (False, False) \<longrightarrow> state p' = Connecting)"
    proof (cases "flags = (True, True)")
      case True
      let ?p' = "p\<lparr>seed := rs_my_seed proto, connected := (True, True), state := Connected,
              nextKeepAlive := now + KEEP_ALIVE_INTERVAL,
              treelets := treelets p \<union> set (rs_treelet_ids proto)\<rparr>"
      let ?s' = "announceTreelets (rs_worker_id proto) (rs_treelet_ids proto)
        (s\<lparr>peers := map_put (rs_worker_id proto) ?p' (peers s)\<rparr>)"
      have "processMessage tr now message s = Some (True, ?s')"
        using processConnectionResponse_both [OF p nc sd, of now] fl True pm by simp
      moreover have "map_of (peers ?s') (rs_worker_id proto) = Some ?p'"
        by (simp add: map_of_update_same)
      ultimately show ?thesis using marks one True
        by (intro exI [of _ ?s'] exI [of _ ?p']) simp
    next
      case False
      let ?p' = "p\<lparr>seed := rs_my_seed proto, connected := flags, state := Connecting\<rparr>"
      let ?s' = "s\<lparr>peers := map_put (rs_worker_id proto) ?p' (peers s)\<rparr>"
      have "processMessage tr now message s = Some (True, ?s')"
        using processConnectionResponse_one [OF p nc sd fl False, of now] pm by simp
      moreover have "map_of (peers ?s') (rs_worker_id proto) = Some ?p'"
        by (simp add: map_of_update_same)
      ultimately show ?thesis using marks False
        by (intro exI [of _ ?s'] exI [of _ ?p']) simp
    qed
  qed
qed

text \<open>
  The start-up messages lead to a reachable state in which peer 2 is connected, with both
  flags set; and the response on interface 1 alone leaves peer 2 connecting.
\<close>

theorem connected_needs_both_interfaces_witness:
  "(\<exists>S P. handleMessages exampleTracer 0
        ((initialWorker 7 100 True (\<lambda>n. 0))\<lparr>messageParser := startupMessages\<rparr>) = Some S \<and>
      reachable S \<and> map_of (peers S) 2 = Some P \<and> state P = Connected \<and>
      connected P = (True, True)) \<and>
   (\<exists>s' p'. processMessage exampleTracer 0 (exampleResponse 1) handshakeExample = Some (True, s') \<and>
      map_of (peers s') 2 = Some p' \<and> connected p' = (False, True) \<and> state p' = Connecting)"
proof
  let ?s0 = "(initialWorker 7 100 True (\<lambda>n. 0))\<lparr>messageParser := startupMessages\<rparr>"
  have "\<exists>S. handleMessages exampleTracer 0 ?s0 = Some S \<and>
      (\<exists>P. map_of (peers S) 2 = Some P \<and> state P = Connected)"
    by (simp add: handleMessages_def startupMessages_def initialWorker_def Message_ctor_def
      exampleResponse_def processMessage_def processHey_def handleConnectTo_def
      processConnectionResponse_def Let_def Worker_ctor_def set2_def emplace_def
      announceTreelet_def deque_at_def)
  then obtain S P where run: "handleMessages exampleTracer 0 ?s0 = Some S"
    and P: "map_of (peers S) 2 = Some P" "state P = Connected"
    by blast
  have "?s0 = (initialWorker 7 100 True (\<lambda>n. 0))
      \<lparr>messageParser := messageParser (initialWorker 7 100 True (\<lambda>n. 0)) @ startupMessages\<rparr>"
    by (simp add: initialWorker_def)
  then have "reachable ?s0"
    using reachable.tcp_data [OF reachable.constructed [of 7 100 True "\<lambda>n. 0"], of startupMessages]
    by simp
  then have r: "reachable S" using run by (rule reachable.messages)
  from connected_needs_both_interfaces [of S] r P have "connected P = (True, True)" by blast
  with run r P show "\<exists>S P. handleMessages exampleTracer 0 ?s0 = Some S \<and>
      reachable S \<and> map_of (peers S) 2 = Some P \<and> state P = Connected \<and>
      connected P = (True, True)"
    by blast
next
  show "\<exists>s' p'. processMessage exampleTracer 0 (exampleResponse 1) handshakeExample = Some (True, s') \<and>
      map_of (peers s') 2 = Some p' \<and> connected p' = (False, True) \<and> state p' = Connecting"
    by (simp add: handshakeExample_def exampleWorker_def initialWorker_def Message_ctor_def
      exampleResponse_def processMessage_def processConnectionResponse_def Let_def
      Worker_ctor_def set2_def)
qed

subsection \<open>Promotion of pending rays\<close>

lemma announceTreelet_pending:
  "deque_at (pendingQueue (announceTreelet w t s)) t' =
   (if t' = t then [] else deque_at (pendingQueue s) t')"
  by (simp add: announceTreelet_def Let_def deque_at_def split: option.splits)

lemma announceTreelet_out:
  "deque_at (map_of (outQueue (announceTreelet w t s))) t' =
   deque_at (map_of (outQueue s)) t' @ (if t' = t then deque_at (pendingQueue s) t else [])"
  by (simp add: announceTreelet_def Let_def deque_at_def map_of_map_put split: option.splits)

lemma announceTreelet_sizes:
  "outQueueSize (announceTreelet w t s) =
     outQueueSize s + of_nat (length (deque_at (pendingQueue s) t)) \<and>
   pendingQueueSize (announceTreelet w t s) =
     pendingQueueSize s - of_nat (length (deque_at (pendingQueue s) t))"
  by (simp add: announceTreelet_def Let_def deque_at_def split: option.splits)

lemma announceTreelet_sets:
  "neededTreelets (announceTreelet w t s) = neededTreelets s - {t} \<and>
   requestedTreelets (announceTreelet w t s) = requestedTreelets s - {t}"
  by (simp add: announceTreelet_def Let_def split: option.splits)

lemma announceTreelet_workers:
  "treeletToWorker (announceTreelet w t s) =
   (treeletToWorker s)(t \<mapsto> deque_at (treeletToWorker s) t @ [w])"
  by (simp add: announceTreelet_def Let_def split: option.splits)

lemma announceTreelets_pending:
  "deque_at (pendingQueue (announceTreelets w ids s)) t =
   (if t \<in> set ids then [] else deque_at (pendingQueue s) t)"
  by (induction ids arbitrary: s) (simp_all add: announceTreelet_pending)

lemma announceTreelets_out:
  "deque_at (map_of (outQueue (announceTreelets w ids s))) t =
   deque_at (map_of (outQueue s)) t @ (if t \<in> set ids then deque_at (pendingQueue s) t else [])"
  by (induction ids arbitrary: s) (simp_all add: announceTreelet_pending announceTreelet_out)

lemma announceTreelets_sets:
  "neededTreelets (announceTreelets w ids s) = neededTreelets s - set ids \<and>
   requestedTreelets (announceTreelets w ids s) = requestedTreelets s - set ids"
  by (induction ids arbitrary: s) (auto simp add: announceTreelet_sets)

lemma announceTreelets_workers:
  "t \<in> set ids \<Longrightarrow>
   \<exists>ws. treeletToWorker (announceTreelets w ids s) t = Some ws \<and> w \<in> set ws"
proof (induction ids arbitrary: s)
  case Nil
  then show ?case by simp
next
  case (Cons a ids)
  have keep: "\<exists>ws. treeletToWorker s t = Some ws \<and> w \<in> set ws \<Longrightarrow>
      \<exists>ws. treeletToWorker (announceTreelets w ids s) t = Some ws \<and> w \<in> set ws" for ids s
    by (induction ids arbitrary: s) (auto simp add: announceTreelet_workers deque_at_def)
  show ?case
  proof (cases "t = a")
    case True
    have "\<exists>ws. treeletToWorker (announceTreelet w a s) t = Some ws \<and> w \<in> set ws"
      by (simp add: True announceTreelet_workers)
    from keep [OF this] show ?thesis by simp
  next
    case False
    with Cons show ?thesis by simp
  qed
qed

lemma sum_without:
  "finite A \<Longrightarrow> (\<Sum>x\<in>A. if x = t then 0 else f x) = (\<Sum>x\<in>A - {t}. (f x :: nat))"
  by (rule sum.mono_neutral_cong_right) auto

lemma announceTreelets_moved:
  "(\<Sum>t\<in>set (a # ids). length (deque_at (pendingQueue s) t)) =
   length (deque_at (pendingQueue s) a) +
   (\<Sum>t\<in>set ids. length (deque_at (pendingQueue (announceTreelet w a s)) t))"
proof -
  have "(\<Sum>t\<in>set ids. length (deque_at (pendingQueue (announceTreelet w a s)) t)) =
      (\<Sum>t\<in>set ids - {a}. length (deque_at (pendingQueue s) t))"
    using sum_without [of "set ids" a "\<lambda>t. length (deque_at (pendingQueue s) t)"]
    by (simp add: announceTreelet_pending if_distrib [of length] cong: if_cong)
  then show ?thesis by (simp add: sum.insert_remove)
qed

lemma announceTreelets_sizes:
  "outQueueSize (announceTreelets w ids s) =
     outQueueSize s + of_nat (\<Sum>t\<in>set ids. length (deque_at (pendingQueue s) t)) \<and>
   pendingQueueSize (announceTreelets w ids s) =
     pendingQueueSize s - of_nat (\<Sum>t\<in>set ids. length (deque_at (pendingQueue s) t))"
proof (induction ids arbitrary: s)
  case Nil
  show ?case by simp
next
  case (Cons a ids)
  show ?case
    unfolding announceTreelets_moved [where a = a and ids = ids and s = s and w = w]
    by (simp add: Cons.IH announceTreelet_sizes)
qed

text \<open>
  C5, as amended. A \<open>ConnectionResponse\<close> with \<open>your_seed = mySeed\<close> from a known peer that
  is not yet connected sets the flag of the response's interface. When this completes
  the handshake (both interface flags are then set), the peer is connected, and for
  every treelet \<open>t\<close> the response lists: the peer is recorded in \<open>treeletToWorker[t]\<close>, \<open>t\<close>
  is removed from \<open>neededTreelets\<close> and \<open>requestedTreelets\<close>, and the rays of
  \<open>pendingQueue[t]\<close> are appended in order to \<open>outQueue[t]\<close>, leaving \<open>pendingQueue[t]\<close>
  empty; \<open>outQueueSize\<close> grows and \<open>pendingQueueSize\<close> shrinks by the number of rays moved.
  When it does not (the other interface is not connected yet), the peer stays
  \<open>Connecting\<close> and nothing but the peer's entry changes: no treelet is recorded and no
  ray is promoted.
\<close>

theorem pending_promotion:
  assumes "opcode message = ConnectionResponse"
    and "payload message = ConnectResponse_payload proto"
    and "map_of (peers s) (rs_worker_id proto) = Some p"
    and "state p \<noteq> Connected"
    and "rs_your_seed proto = mySeed s"
    and "set2 (connected p) (rs_address_no proto) True = Some flags"
  shows "\<exists>s'. processMessage tr now message s = Some (True, s') \<and>
    (if flags = (True, True) then
       (\<exists>p'. map_of (peers s') (rs_worker_id proto) = Some p' \<and> state p' = Connected) \<and>
       (\<forall>t\<in>set (rs_treelet_ids proto).
          (\<exists>ws. treeletToWorker s' t = Some ws \<and> rs_worker_id proto \<in> set ws) \<and>
          t \<notin> neededTreelets s' \<and> t \<notin> requestedTreelets s' \<and>
          deque_at (pendingQueue s') t = [] \<and>
          deque_at (map_of (outQueue s')) t =
            deque_at (map_of (outQueue s)) t @ deque_at (pendingQueue s) t) \<and>
       outQueueSize s' =
         outQueueSize s +
         of_nat (\<Sum>t\<in>set (rs_treelet_ids proto). length (deque_at (pendingQueue s) t)) \<and>
       pendingQueueSize s' =
         pendingQueueSize s -
         of_nat (\<Sum>t\<in>set (rs_treelet_ids proto). length (deque_at (pendingQueue s) t))
     else
       s' = s\<lparr>peers := map_put (rs_worker_id proto)
              (p\<lparr>seed := rs_my_seed proto, connected := flags, state := Connecting\<rparr>) (peers s)\<rparr> \<and>
       treeletToWorker s' = treeletToWorker s \<and>
       neededTreelets s' = neededTreelets s \<and> requestedTreelets s' = requestedTreelets s \<and>
       pendingQueue s' = pendingQueue s \<and> outQueue s' = outQueue s \<and>
       outQueueSize s' = outQueueSize s \<and> pendingQueueSize s' = pendingQueueSize s)"
proof (cases "flags = (True, True)")
  case True
  let ?p' = "p\<lparr>seed := rs_my_seed proto, connected := (True, True), state := Connected,
              nextKeepAlive := now + KEEP_ALIVE_INTERVAL,
              treelets := treelets p \<union> set (rs_treelet_ids proto)\<rparr>"
  let ?s0 = "s\<lparr>peers := map_put (rs_worker_id proto) ?p' (peers s)\<rparr>"
  let ?s' = "announceTreelets (rs_worker_id proto) (rs_treelet_ids proto) ?s0"
  have pm: "processMessage tr now message s = Some (True, ?s')"
    using processConnectionResponse_both [OF assms(3-5), of now] assms(6) True
    by (simp add: processMessage_def assms(1,2))
  have "\<exists>p'. map_of (peers ?s') (rs_worker_id proto) = Some p' \<and> state p' = Connected"
    by (simp add: map_of_map_put)
  moreover have "\<forall>t\<in>set (rs_treelet_ids proto).
       (\<exists>ws. treeletToWorker ?s' t = Some ws \<and> rs_worker_id proto \<in> set ws) \<and>
       t \<notin> neededTreelets ?s' \<and> t \<notin> requestedTreelets ?s' \<and>
       deque_at (pendingQueue ?s') t = [] \<and>
       deque_at (map_of (outQueue ?s')) t =
         deque_at (map_of (outQueue s)) t @ deque_at (pendingQueue s) t"
    using announceTreelets_workers [of _ "rs_treelet_ids proto" "rs_worker_id proto" ?s0]
    by (simp add: announceTreelets_sets announceTreelets_pending announceTreelets_out)
  moreover have "outQueueSize ?s' =
      outQueueSize s + of_nat (\<Sum>t\<in>set (rs_treelet_ids proto). length (deque_at (pendingQueue s) t))"
    "pendingQueueSize ?s' =
      pendingQueueSize s - of_nat (\<Sum>t\<in>set (rs_treelet_ids proto). length (deque_at (pendingQueue s) t))"
    by (simp_all add: announceTreelets_sizes)
  ultimately show ?thesis using pm True by simp
next
  case False
  have "processMessage tr now message s =
      Some (True, s\<lparr>peers := map_put (rs_worker_id proto)
        (p\<lparr>seed := rs_my_seed proto, connected := flags, state := Connecting\<rparr>) (peers s)\<rparr>)"
    using processConnectionResponse_one [OF assms(3-6) False, of now]
    by (simp add: processMessage_def assms(1,2))
  with False show ?thesis by simp
qed

text \<open>
  The property as the specification states it fails: the first matching response of a
  peer (interface 0, the other interface not yet connected) announces treelet 1, and
  nothing is promoted.
\<close>

theorem pending_promotion_counterexample:
  "rs_your_seed \<lparr>rs_worker_id = 2, rs_my_seed = 9, rs_your_seed = 7, rs_address_no = 0,
       rs_treelet_ids = [1]\<rparr> = mySeed handshakeExample \<and>
   map_option (\<lambda>(ok, s'). (treeletToWorker s' 1, deque_at (pendingQueue s') 1,
        deque_at (map_of (outQueue s')) 1, neededTreelets s'))
     (processMessage exampleTracer 0 (exampleResponse 0) handshakeExample) =
     Some (None, [exampleRay 0 1 []], [], {1})"
  by (simp add: handshakeExample_def exampleWorker_def initialWorker_def Message_ctor_def
      exampleResponse_def processMessage_def processConnectionResponse_def Let_def
      Worker_ctor_def set2_def deque_at_def)

text \<open>
  The response on interface 0 leaves the peer connecting and the ray pending; the
  response on interface 1, once interface 0 is connected, promotes the ray.
\<close>

theorem pending_promotion_witness:
  "map_option (\<lambda>(ok, s'). (map_option state (map_of (peers s') 2), treeletToWorker s' 1,
        deque_at (pendingQueue s') 1, deque_at (map_of (outQueue s')) 1, neededTreelets s',
        outQueueSize s', pendingQueueSize s'))
     (processMessage exampleTracer 0 (exampleResponse 0) handshakeExample) =
     Some (Some Connecting, None, [exampleRay 0 1 []], [], {1}, 0, 1) \<and>
   map_option (\<lambda>(ok, s'). (map_option state (map_of (peers s') 2), treeletToWorker s' 1,
        deque_at (pendingQueue s') 1, deque_at (map_of (outQueue s')) 1, neededTreelets s',
        outQueueSize s', pendingQueueSize s'))
     (processMessage exampleTracer 0 (exampleResponse 1)
        (handshakeExample\<lparr>peers := [(2, (Worker_ctor 2)\<lparr>connected := (True, False)\<rparr>)]\<rparr>)) =
     Some (Some Connected, Some [2], [], [exampleRay 0 1 []], {}, 1, 0)"
  using pending_promotion [of "exampleResponse 0"
      "\<lparr>rs_worker_id = 2, rs_my_seed = 9, rs_your_seed = 7, rs_address_no = 0,
        rs_treelet_ids = [1]\<rparr>"
      handshakeExample "Worker_ctor 2" "(True, False)" exampleTracer 0]
    pending_promotion [of "exampleResponse 1"
      "\<lparr>rs_worker_id = 2, rs_my_seed = 9, rs_your_seed = 7, rs_address_no = 1,
        rs_treelet_ids = [1]\<rparr>"
      "handshakeExample\<lparr>peers := [(2, (Worker_ctor 2)\<lparr>connected := (True, False)\<rparr>)]\<rparr>"
      "(Worker_ctor 2)\<lparr>connected := (True, False)\<rparr>" "(True, True)" exampleTracer 0]
  by (simp add: handshakeExample_def exampleWorker_def initialWorker_def Message_ctor_def
      exampleResponse_def processMessage_def processConnectionResponse_def Let_def
      Worker_ctor_def set2_def deque_at_def announceTreelet_def)

subsection \<open>Packet assembly and sequence numbers\<close>

lemma length_be_bytes [simp]: "length (be_bytes n v) = n"
  by (induction n) simp_all

lemma length_frame [simp]: "length (frame str) = length str + 4"
  by (simp add: frame_def)

text \<open>The equation of \<open>assemblePackets\<close> is unfolded by hand, one round at a time.\<close>

declare assemblePackets.simps [simp del]





text \<open>
  What the inner loop does with the queue: it writes a prefix of the queue, holds back
  at most the next ray and leaves the rest; and with what it writes, the running length
  stays within \<open>UDP_MTU_BYTES\<close>.
\<close>

lemma fillPacket_split:
  "fillPacket packetLen written outRays = (written', unpacked, outRays') \<Longrightarrow>
   \<exists>taken. written' = written @ taken \<and> outRays = taken @ heldBack unpacked @ outRays'"
proof (induction packetLen written outRays rule: fillPacket.induct)
  case (1 packetLen written)
  then show ?case by (simp add: heldBack_def)
next
  case (2 packetLen written ray outRays)
  show ?case
  proof (cases "packetLen < UDP_MTU_BYTES \<and> \<not> length (serialize ray) + 4 + packetLen > UDP_MTU_BYTES")
    case True
    then have "fillPacket (packetLen + (length (serialize ray) + 4)) (written @ [ray]) outRays =
        (written', unpacked, outRays')"
      using "2.prems" by (simp add: Let_def)
    from "2.IH" [OF _ refl _ this] True obtain taken where
      "written' = (written @ [ray]) @ taken" "outRays = taken @ heldBack unpacked @ outRays'"
      by auto
    then show ?thesis by (intro exI [of _ "ray # taken"]) simp
  next
    case False
    then show ?thesis using "2.prems"
      by (intro exI [of _ "[]"]) (auto simp add: Let_def heldBack_def split: if_splits)
  qed
qed

lemma fillPacket_length:
  "fillPacket packetLen written outRays = (written', unpacked, outRays') \<Longrightarrow>
   packetLen \<le> UDP_MTU_BYTES \<Longrightarrow>
   packetLen + (\<Sum>ray\<leftarrow>drop (length written) written'. length (serialize ray) + 4) \<le> UDP_MTU_BYTES"
proof (induction packetLen written outRays rule: fillPacket.induct)
  case (1 packetLen written)
  then show ?case by simp
next
  case (2 packetLen written ray outRays)
  show ?case
  proof (cases "packetLen < UDP_MTU_BYTES \<and> \<not> length (serialize ray) + 4 + packetLen > UDP_MTU_BYTES")
    case True
    then have fp: "fillPacket (packetLen + (length (serialize ray) + 4)) (written @ [ray]) outRays =
        (written', unpacked, outRays')"
      using "2.prems" by (simp add: Let_def)
    from fillPacket_split [OF fp] obtain taken where w: "written' = (written @ [ray]) @ taken"
      by blast
    from "2.IH" [OF _ refl _ fp] True
    have "packetLen + (length (serialize ray) + 4) +
        (\<Sum>ray\<leftarrow>drop (length (written @ [ray])) written'. length (serialize ray) + 4) \<le> UDP_MTU_BYTES"
      by simp
    then show ?thesis by (simp add: w)
  next
    case False
    then show ?thesis using "2.prems" by (auto simp add: Let_def split: if_splits)
  qed
qed

lemma length_frames:
  "length (concat (map (\<lambda>ray. frame (serialize ray)) rays)) =
   (\<Sum>ray\<leftarrow>rays. length (serialize ray) + 4)"
  by (induction rays) simp_all

text \<open>
  A packet that starts without a held-back ray keeps the budget: its payload and the 25
  bytes are within \<open>UDP_MTU_BYTES\<close>.
\<close>

lemma assemblePackets_first_packet:
  assumes "outRays \<noteq> []"
  shows "25 + payloadLength (hd (assemblePackets wid reliably rnd peer treeletId outRays None
           peerSeqNo pos)) \<le> UDP_MTU_BYTES"
proof -
  obtain written unpacked' outRays' where fp: "fillPacket 25 [] outRays = (written, unpacked', outRays')"
    by (cases "fillPacket 25 [] outRays")
  from fillPacket_length [OF fp]
  have "25 + (\<Sum>ray\<leftarrow>written. length (serialize ray) + 4) \<le> UDP_MTU_BYTES"
    by (simp add: UDP_MTU_BYTES_def)
  moreover have "payloadLength (hd (assemblePackets wid reliably rnd peer treeletId outRays None
      peerSeqNo pos)) = (\<Sum>ray\<leftarrow>written. length (serialize ray) + 4)"
    using assms
    by (subst assemblePackets.simps)
      (simp add: unpackedRayStr_def fp payloadLength_def Message_ctor_def length_frames)
  ultimately show ?thesis by simp
qed

text \<open>
  No ray is lost and the order is kept, as long as no ray serializes to the empty string
  (a held-back ray with an empty \<open>unpackedRayStr\<close> is not seen by the loop): the payloads
  of the packets, one after the other, are the framed rays of the queue, the held-back
  ray first.
\<close>

lemma assemblePackets_payload:
  "\<forall>ray\<in>set (heldBack unpacked @ outRays). serialize ray \<noteq> [] \<Longrightarrow>
   concat (map payloadBytes
     (assemblePackets wid reliably rnd peer treeletId outRays unpacked peerSeqNo pos)) =
   concat (map (\<lambda>ray. frame (serialize ray)) (heldBack unpacked @ outRays)) \<and>
   sum_list (map rayCount
     (assemblePackets wid reliably rnd peer treeletId outRays unpacked peerSeqNo pos)) =
   length (heldBack unpacked @ outRays)"
proof (induction wid reliably rnd peer treeletId outRays unpacked peerSeqNo pos
    rule: assemblePackets.induct)
  case (1 wid reliably rnd peer treeletId outRays unpacked peerSeqNo pos)
  have str: "unpackedRayStr unpacked = [] \<longleftrightarrow> unpacked = None"
    using "1.prems" by (cases unpacked) (simp_all add: unpackedRayStr_def heldBack_def)
  show ?case
  proof (cases "outRays = [] \<and> unpackedRayStr unpacked = []")
    case True
    then have "assemblePackets wid reliably rnd peer treeletId outRays unpacked peerSeqNo pos = []"
      by (subst assemblePackets.simps) simp
    with True str show ?thesis by (simp add: heldBack_def)
  next
    case False
    have start: "(if unpackedRayStr unpacked \<noteq> [] then (case unpacked of None \<Rightarrow> [] | Some ray \<Rightarrow> [ray])
        else []) = heldBack unpacked"
      using str by (cases unpacked) (simp_all add: heldBack_def)
    obtain written unpacked' outRays' where fp: "fillPacket
        (if unpackedRayStr unpacked \<noteq> [] then length (unpackedRayStr unpacked) + 4 else 25)
        (if unpackedRayStr unpacked \<noteq> [] then (case unpacked of None \<Rightarrow> [] | Some ray \<Rightarrow> [ray]) else [])
        outRays = (written, unpacked', outRays')"
      by (cases "fillPacket
        (if unpackedRayStr unpacked \<noteq> [] then length (unpackedRayStr unpacked) + 4 else 25)
        (if unpackedRayStr unpacked \<noteq> [] then (case unpacked of None \<Rightarrow> [] | Some ray \<Rightarrow> [ray]) else [])
        outRays")
    from fillPacket_split [OF fp] obtain taken where
      written: "written = heldBack unpacked @ taken" and
      rest: "outRays = taken @ heldBack unpacked' @ outRays'"
      unfolding start by blast
    have "\<forall>ray\<in>set (heldBack unpacked' @ outRays'). serialize ray \<noteq> []"
      using "1.prems" rest by auto
    note ih = "1.IH" [OF False fp [symmetric] refl this]
    have step: "\<exists>packet. payloadBytes packet = concat (map (\<lambda>ray. frame (serialize ray)) written) \<and>
        rayCount packet = length written \<and>
        assemblePackets wid reliably rnd peer treeletId outRays unpacked peerSeqNo pos =
        packet # assemblePackets wid reliably rnd peer treeletId outRays' unpacked' (peerSeqNo + 1) (pos + 1)"
      by (subst assemblePackets.simps) (simp add: False fp payloadBytes_def Message_ctor_def)
    then obtain packet0 where
      p: "payloadBytes packet0 = concat (map (\<lambda>ray. frame (serialize ray)) written)"
        "rayCount packet0 = length written" and
      eq: "assemblePackets wid reliably rnd peer treeletId outRays unpacked peerSeqNo pos =
        packet0 # assemblePackets wid reliably rnd peer treeletId outRays' unpacked' (peerSeqNo + 1) (pos + 1)"
      by blast
    have "concat (map payloadBytes
        (assemblePackets wid reliably rnd peer treeletId outRays unpacked peerSeqNo pos)) =
        concat (map (\<lambda>ray. frame (serialize ray)) written) @
        concat (map (\<lambda>ray. frame (serialize ray)) (heldBack unpacked' @ outRays'))"
      using ih p by (simp add: eq)
    also have "\<dots> = concat (map (\<lambda>ray. frame (serialize ray)) (heldBack unpacked @ outRays))"
      by (simp add: written rest)
    finally have bytes: "concat (map payloadBytes
        (assemblePackets wid reliably rnd peer treeletId outRays unpacked peerSeqNo pos)) =
        concat (map (\<lambda>ray. frame (serialize ray)) (heldBack unpacked @ outRays))" .
    have "sum_list (map rayCount
        (assemblePackets wid reliably rnd peer treeletId outRays unpacked peerSeqNo pos)) =
        length written + length (heldBack unpacked' @ outRays')"
      using ih p by (simp add: eq)
    also have "\<dots> = length (heldBack unpacked @ outRays)"
      by (simp add: written rest)
    finally show ?thesis using bytes by simp
  qed
qed

text \<open>
  C2, at two failing inputs. With rays of 1000, 1000 and 342 serialized bytes queued
  for one treelet, the second ray is held back, and the second packet restarts its
  length count from the held-back ray alone (1004, without the 25 bytes of header
  budget), so the third ray still fits: the packet's payload is 1350 bytes, 1375 with
  the budget the first packet was charged. With a single ray of 1400 bytes, the first
  packet goes out empty and the second carries a payload of 1404 bytes. Each triple is
  the number of rays of a packet, the length of its payload, and that length with the
  25-byte budget.
\<close>

theorem packet_over_budget:
  "map_option (\<lambda>s'. map (\<lambda>packet. (rayCount packet, payloadLength packet, 25 + payloadLength packet))
       (rayPackets s'))
     (handleOutQueue (assemblyExample [1000, 1000, 342])) =
     Some [(1, 1004, 1029), (2, 1350, 1375)] \<and>
   map_option (\<lambda>s'. map (\<lambda>packet. (rayCount packet, payloadLength packet, 25 + payloadLength packet))
       (rayPackets s'))
     (handleOutQueue (assemblyExample [1400])) =
     Some [(0, 0, 25), (1, 1404, 1429)] \<and>
   UDP_MTU_BYTES = 1350"
  by (simp add: handleOutQueue_def assemblyExample_def exampleWorker_def initialWorker_def
      deque_at_def Worker_ctor_def exampleRay_def unpackedRayStr_def UDP_MTU_BYTES_def
      counter_at_def payloadLength_def Message_ctor_def Let_def assemblePackets.simps)




lemma counter_step:
  "unat ((seq :: SeqNo) + of_nat n) \<le> unat seq + n"
proof -
  have "unat (seq + of_nat n) \<le> unat seq + unat (of_nat n :: SeqNo)"
    by (simp add: unat_word_ariths)
  also have "unat (of_nat n :: SeqNo) \<le> n"
    by (simp add: unat_of_nat)
  finally show ?thesis by simp
qed

lemma retransmit_sequenceNumbers [simp]:
  "sequenceNumbers (retransmit now outstanding s) = sequenceNumbers s"
proof (induction outstanding arbitrary: s)
  case Nil
  show ?case by simp
next
  case (Cons x outstanding)
  obtain deadline packet where x: "x = (deadline, packet)" by (cases x)
  show ?case by (simp add: x Let_def Cons.IH)
qed





subsection \<open>The protobuf message of a parameter set\<close>

text \<open>
  The message \<open>to_protobuf\<close> builds lists the \<open>point2f\<close> items twice and the items of
  every other kind once. What \<open>from_protobuf\<close> makes of the repeated items depends on
  \<open>ParamSet::AddPoint2f\<close>.
\<close>

lemma to_protobuf_fields:
  "to_protobuf ps =
     \<lparr>proto_bools = bools ps, proto_ints = ints ps, proto_floats = floats ps,
      proto_point2fs = point2fs ps @ point2fs ps, proto_vector2fs = vector2fs ps,
      proto_point3fs = point3fs ps, proto_vector3fs = vector3fs ps,
      proto_normals = normals ps, proto_spectra = spectra ps, proto_strings = strings ps,
      proto_textures = textures ps\<rparr>"
  by (simp add: to_protobuf_def add_all_def Let_def)

end
